theory Spec2Isabelle
  imports
    Main
    "HOL-Library.Char_ord"
    "HOL-Library.List_Lexorder"
begin

section \<open>liskov-semver: the version-decision engine of \<^verbatim>\<open>src/main.mjs\<close>\<close>

text \<open>
  The program is a JavaScript command-line tool. It asks git for the highest tag that is a
  semantic version and for the current branch, clones, builds and packs both revisions,
  writes two TypeScript witness programs, runs \<^verbatim>\<open>tsc\<close> on each, and maps the two
  outcomes to a version bump.

  The embedding follows \<^verbatim>\<open>src/main.mjs\<close> (first revision in the file) function by
  function; the variant of \<^verbatim>\<open>main\<close> that compares commits is taken from
  \<^verbatim>\<open>src/unnamed/part_000\<close> (first revision in that file). Strings are byte strings,
  JavaScript values that come out of \<^verbatim>\<open>JSON.parse\<close> are the datatype \<open>json\<close>, a
  thrown exception is the left summand of a result, and every spawned process and file
  operation is an event of a trace.
\<close>

subsection \<open>Strings\<close>

text \<open>\<^verbatim>\<open>String.prototype.trim\<close>, on the ASCII white space (TAB, LF, VT, FF, CR, SPACE).\<close>

definition is_space :: "char \<Rightarrow> bool" where
  "is_space c = (of_char c \<in> {9, 10, 11, 12, 13, 32 :: nat})"

definition trim :: "string \<Rightarrow> string" where
  "trim s = rev (dropWhile is_space (rev (dropWhile is_space s)))"

text \<open>\<^verbatim>\<open>s.split(sep)\<close> for a separator of one character: never an empty list.\<close>

fun split_char :: "char \<Rightarrow> string \<Rightarrow> string list" where
  "split_char sep [] = [[]]"
| "split_char sep (c # cs) =
     (if c = sep then [] # split_char sep cs
      else (case split_char sep cs of
              [] \<Rightarrow> [[c]]
            | w # ws \<Rightarrow> (c # w) # ws))"

text \<open>\<^verbatim>\<open>xs.join(sep)\<close>.\<close>

fun join :: "string \<Rightarrow> string list \<Rightarrow> string" where
  "join sep [] = []"
| "join sep [x] = x"
| "join sep (x # y # ys) = x @ sep @ join sep (y # ys)"

text \<open>Decimal notation of a number, as \<^verbatim>\<open>String(n)\<close> gives it for a safe integer.\<close>

definition digit_char :: "nat \<Rightarrow> char" where
  "digit_char d = char_of (48 + d)"

function string_of_nat :: "nat \<Rightarrow> string" where
  "string_of_nat n =
     (if n < 10 then [digit_char n]
      else string_of_nat (n div 10) @ [digit_char (n mod 10)])"
  by pat_completeness auto
termination
  by (relation "measure id") auto

declare string_of_nat.simps [simp del]

definition is_digit :: "char \<Rightarrow> bool" where
  "is_digit c = (48 \<le> (of_char c :: nat) \<and> (of_char c :: nat) \<le> 57)"

definition digit_val :: "char \<Rightarrow> nat" where
  "digit_val c = of_char c - 48"

definition nat_of_string :: "string \<Rightarrow> nat" where
  "nat_of_string s = foldl (\<lambda>n c. 10 * n + digit_val c) 0 s"

subsection \<open>The \<^verbatim>\<open>semver\<close> package\<close>

text \<open>
  The npm package \<^verbatim>\<open>semver\<close> is a dependency, not part of the repository. It is
  modelled after its documented behaviour and the grammar and precedence rules of
  Semantic Versioning 2.0.0, in strict mode (the program never passes options).
  Numbers are natural numbers: the package's limits (a version of at most 256 characters,
  numbers up to \<open>2^53 - 1\<close>) are not part of the model.
\<close>

datatype ident = Numeric nat | Alphanum string

record SemVer =
  major :: nat
  minor :: nat
  patch :: nat
  prerelease :: "ident list"
  buildmeta :: "string list"

definition is_letter_or_dash :: "char \<Rightarrow> bool" where
  "is_letter_or_dash c =
     (let n = (of_char c :: nat)
      in (65 \<le> n \<and> n \<le> 90) \<or> (97 \<le> n \<and> n \<le> 122) \<or> n = 45)"

definition is_idchar :: "char \<Rightarrow> bool" where
  "is_idchar c = (is_digit c \<or> is_letter_or_dash c)"

text \<open>\<^verbatim>\<open>0|[1-9]\d*\<close>\<close>

definition numeric_identifier :: "string \<Rightarrow> bool" where
  "numeric_identifier s =
     (case s of
        [] \<Rightarrow> False
      | c # cs \<Rightarrow> list_all is_digit s \<and> (cs = [] \<or> c \<noteq> CHR ''0''))"

text \<open>\<^verbatim>\<open>0|[1-9]\d*|\d*[a-zA-Z-][a-zA-Z0-9-]*\<close>\<close>

definition prerelease_identifier :: "string \<Rightarrow> bool" where
  "prerelease_identifier s =
     (s \<noteq> [] \<and> list_all is_idchar s \<and>
      (if list_all is_digit s then numeric_identifier s else True))"

text \<open>\<^verbatim>\<open>[0-9A-Za-z-]+\<close>\<close>

definition build_identifier :: "string \<Rightarrow> bool" where
  "build_identifier s = (s \<noteq> [] \<and> list_all is_idchar s)"

definition ident_of_string :: "string \<Rightarrow> ident" where
  "ident_of_string s = (if list_all is_digit s then Numeric (nat_of_string s) else Alphanum s)"

definition string_of_ident :: "ident \<Rightarrow> string" where
  "string_of_ident i = (case i of Numeric n \<Rightarrow> string_of_nat n | Alphanum s \<Rightarrow> s)"

text \<open>
  \<^verbatim>\<open>new SemVer(version)\<close> for a string: the string is trimmed and matched against
  \<^verbatim>\<open>^v?MAJOR.MINOR.PATCH(-PRERELEASE)?(+BUILD)?$\<close>; \<open>None\<close> is the
  \<^verbatim>\<open>TypeError\<close> of a string that does not match.
\<close>

definition is_main_char :: "char \<Rightarrow> bool" where
  "is_main_char c = (c \<noteq> CHR ''-'' \<and> c \<noteq> CHR ''+'')"

definition strip_v :: "string \<Rightarrow> string" where
  "strip_v s = (case s of [] \<Rightarrow> [] | c # cs \<Rightarrow> if c = CHR ''v'' then cs else s)"

definition parse_main :: "string \<Rightarrow> (nat \<times> nat \<times> nat) option" where
  "parse_main s =
     (case split_char CHR ''.'' s of
        [a, b, c] \<Rightarrow>
          if numeric_identifier a \<and> numeric_identifier b \<and> numeric_identifier c
          then Some (nat_of_string a, nat_of_string b, nat_of_string c)
          else None
      | _ \<Rightarrow> None)"

definition parse_prerelease :: "string \<Rightarrow> (ident list \<times> string) option" where
  "parse_prerelease rest =
     (case rest of
        [] \<Rightarrow> Some ([], [])
      | c # cs \<Rightarrow>
          if c = CHR ''-'' then
            (let ids = split_char CHR ''.'' (takeWhile (\<lambda>c. c \<noteq> CHR ''+'') cs)
             in if list_all prerelease_identifier ids
                then Some (map ident_of_string ids, dropWhile (\<lambda>c. c \<noteq> CHR ''+'') cs)
                else None)
          else Some ([], rest))"

definition parse_build :: "string \<Rightarrow> string list option" where
  "parse_build rest =
     (case rest of
        [] \<Rightarrow> Some []
      | c # cs \<Rightarrow>
          (let ids = split_char CHR ''.'' cs
           in if c = CHR ''+'' \<and> list_all build_identifier ids then Some ids else None))"

definition parse_version :: "string \<Rightarrow> SemVer option" where
  "parse_version raw =
     (let s = strip_v (trim raw)
      in case parse_main (takeWhile is_main_char s) of
           None \<Rightarrow> None
         | Some (ma, mi, pa) \<Rightarrow>
             (case parse_prerelease (dropWhile is_main_char s) of
                None \<Rightarrow> None
              | Some (pre, rest) \<Rightarrow>
                  (case parse_build rest of
                     None \<Rightarrow> None
                   | Some bld \<Rightarrow>
                       Some \<lparr>major = ma, minor = mi, patch = pa,
                             prerelease = pre, buildmeta = bld\<rparr>)))"

text \<open>\<^verbatim>\<open>SemVer.format()\<close>, the value of the field \<^verbatim>\<open>version\<close>: no build metadata.\<close>

definition format :: "SemVer \<Rightarrow> string" where
  "format v =
     string_of_nat (major v) @ ''.'' @ string_of_nat (minor v) @ ''.'' @ string_of_nat (patch v) @
     (if prerelease v = [] then []
      else ''-'' @ join ''.'' (map string_of_ident (prerelease v)))"

text \<open>\<^verbatim>\<open>compareIdentifiers\<close>: numbers before names, numbers by value, names as strings.\<close>

fun compareIdentifiers :: "ident \<Rightarrow> ident \<Rightarrow> int" where
  "compareIdentifiers (Numeric a) (Numeric b) = (if a = b then 0 else if a < b then - 1 else 1)"
| "compareIdentifiers (Numeric a) (Alphanum b) = - 1"
| "compareIdentifiers (Alphanum a) (Numeric b) = 1"
| "compareIdentifiers (Alphanum a) (Alphanum b) = (if a = b then 0 else if a < b then - 1 else 1)"

definition compare_nat :: "nat \<Rightarrow> nat \<Rightarrow> int" where
  "compare_nat a b = (if a = b then 0 else if a < b then - 1 else 1)"

text \<open>\<^verbatim>\<open>SemVer.compareMain\<close>: \<^verbatim>\<open>a || b || c\<close> takes the first that is not zero.\<close>

definition compareMain :: "SemVer \<Rightarrow> SemVer \<Rightarrow> int" where
  "compareMain v w =
     (if compare_nat (major v) (major w) \<noteq> 0 then compare_nat (major v) (major w)
      else if compare_nat (minor v) (minor w) \<noteq> 0 then compare_nat (minor v) (minor w)
      else compare_nat (patch v) (patch w))"

text \<open>The loop of \<^verbatim>\<open>SemVer.comparePre\<close> over the two identifier lists.\<close>

fun compare_idents :: "ident list \<Rightarrow> ident list \<Rightarrow> int" where
  "compare_idents [] [] = 0"
| "compare_idents (a # as) [] = 1"
| "compare_idents [] (b # bs) = - 1"
| "compare_idents (a # as) (b # bs) =
     (if a = b then compare_idents as bs else compareIdentifiers a b)"

definition comparePre :: "SemVer \<Rightarrow> SemVer \<Rightarrow> int" where
  "comparePre v w =
     (if prerelease v \<noteq> [] \<and> prerelease w = [] then - 1
      else if prerelease v = [] \<and> prerelease w \<noteq> [] then 1
      else if prerelease v = [] \<and> prerelease w = [] then 0
      else compare_idents (prerelease v) (prerelease w))"

text \<open>
  \<^verbatim>\<open>SemVer.compare\<close>, the semantic-version order: \<open>- 1\<close>, \<open>0\<close> or \<open>1\<close>. Build metadata
  is ignored. (The package first returns 0 when the two \<^verbatim>\<open>version\<close> strings are
  equal; the fields compared here are then equal too.)
\<close>

definition compare_SemVer :: "SemVer \<Rightarrow> SemVer \<Rightarrow> int" where
  "compare_SemVer v w = (if compareMain v w \<noteq> 0 then compareMain v w else comparePre v w)"

datatype release = Major | Minor | Patch

text \<open>\<^verbatim>\<open>SemVer.inc(release)\<close> for the three releases the program asks for.\<close>

definition inc :: "SemVer \<Rightarrow> release \<Rightarrow> SemVer" where
  "inc v r =
     (case r of
        Major \<Rightarrow>
          v\<lparr>major := (if minor v \<noteq> 0 \<or> patch v \<noteq> 0 \<or> prerelease v = []
                       then major v + 1 else major v),
            minor := 0, patch := 0, prerelease := []\<rparr>
      | Minor \<Rightarrow>
          v\<lparr>minor := (if patch v \<noteq> 0 \<or> prerelease v = [] then minor v + 1 else minor v),
            patch := 0, prerelease := []\<rparr>
      | Patch \<Rightarrow>
          v\<lparr>patch := (if prerelease v = [] then patch v + 1 else patch v),
            prerelease := []\<rparr>)"

subsection \<open>JavaScript values\<close>

text \<open>
  What \<^verbatim>\<open>JSON.parse\<close> returns. An object is the list of its own properties in the
  order JavaScript enumerates them (a parsed object has no name twice; where a name is
  looked up, the first entry answers); a number is kept as its literal, the program
  never looks at one.
\<close>

datatype json =
    JNull
  | JBool bool
  | JNum string
  | JStr string
  | JArr "json list"
  | JObj "(string \<times> json) list"

text \<open>
  A thrown exception: \<^verbatim>\<open>new Error(message)\<close> of the program itself, a
  \<^verbatim>\<open>TypeError\<close> of the runtime or of \<^verbatim>\<open>semver\<close>, or a failure of the file
  system or of \<^verbatim>\<open>JSON.parse\<close>.
\<close>

datatype error = Error string | TypeError | SystemError string

text \<open>\<^verbatim>\<open>typeof x === "object"\<close>: true of \<^verbatim>\<open>null\<close> and of arrays too.\<close>

definition typeof_object :: "json \<Rightarrow> bool" where
  "typeof_object x = (case x of JNull \<Rightarrow> True | JArr _ \<Rightarrow> True | JObj _ \<Rightarrow> True | _ \<Rightarrow> False)"

text \<open>
  \<^verbatim>\<open>"types" in x\<close>: a \<^verbatim>\<open>TypeError\<close> unless \<open>x\<close> is an object or an array; no
  array and no prototype has a property of that name.
\<close>

definition types_in :: "json \<Rightarrow> error + bool" where
  "types_in x =
     (case x of
        JObj kvs \<Rightarrow> Inr (map_of kvs ''types'' \<noteq> None)
      | JArr _ \<Rightarrow> Inr False
      | _ \<Rightarrow> Inl TypeError)"

text \<open>
  \<^verbatim>\<open>x.name\<close> for the two names the program reads, \<^verbatim>\<open>exports\<close> and
  \<^verbatim>\<open>version\<close>: \<open>None\<close> is \<^verbatim>\<open>undefined\<close>.
\<close>

definition property :: "json \<Rightarrow> string \<Rightarrow> error + json option" where
  "property x name =
     (case x of
        JNull \<Rightarrow> Inl TypeError
      | JObj kvs \<Rightarrow> Inr (map_of kvs name)
      | _ \<Rightarrow> Inr None)"

text \<open>\<^verbatim>\<open>x ?? d\<close>\<close>

definition nullish :: "json option \<Rightarrow> json \<Rightarrow> json" where
  "nullish x d = (case x of None \<Rightarrow> d | Some JNull \<Rightarrow> d | Some v \<Rightarrow> v)"

text \<open>\<^verbatim>\<open>Object.entries(x)\<close>: indexed elements for an array and for a string.\<close>

definition Object_entries :: "json \<Rightarrow> error + (string \<times> json) list" where
  "Object_entries x =
     (case x of
        JNull \<Rightarrow> Inl TypeError
      | JObj kvs \<Rightarrow> Inr kvs
      | JArr xs \<Rightarrow> Inr (zip (map string_of_nat [0 ..< length xs]) xs)
      | JStr s \<Rightarrow> Inr (zip (map string_of_nat [0 ..< length s]) (map (\<lambda>c. JStr [c]) s))
      | _ \<Rightarrow> Inr [])"

subsection \<open>The functions of \<^verbatim>\<open>semver\<close> the program calls\<close>

text \<open>
  The values the program hands to \<^verbatim>\<open>semver\<close>: a string, a \<^verbatim>\<open>SemVer\<close> object,
  or anything else (\<^verbatim>\<open>null\<close>, a number, an object), which the constructor rejects
  like \<^verbatim>\<open>null\<close>.
\<close>

datatype version_arg = VNull | VString string | VSemVer SemVer

definition version_arg_of_json :: "json \<Rightarrow> version_arg" where
  "version_arg_of_json j = (case j of JStr s \<Rightarrow> VString s | _ \<Rightarrow> VNull)"

definition new_SemVer :: "version_arg \<Rightarrow> error + SemVer" where
  "new_SemVer a =
     (case a of
        VSemVer v \<Rightarrow> Inr v
      | VString s \<Rightarrow> (case parse_version s of None \<Rightarrow> Inl TypeError | Some v \<Rightarrow> Inr v)
      | VNull \<Rightarrow> Inl TypeError)"

text \<open>\<^verbatim>\<open>semver.parse\<close>: \<^verbatim>\<open>null\<close> instead of the constructor's exception.\<close>

definition semver_parse :: "version_arg \<Rightarrow> SemVer option" where
  "semver_parse a = (case new_SemVer a of Inl _ \<Rightarrow> None | Inr v \<Rightarrow> Some v)"

text \<open>\<^verbatim>\<open>semver.valid\<close>: the normalised version string, or \<^verbatim>\<open>null\<close>.\<close>

definition semver_valid :: "version_arg \<Rightarrow> string option" where
  "semver_valid a = map_option format (semver_parse a)"

text \<open>\<^verbatim>\<open>semver.major\<close>: throws on an invalid version.\<close>

definition semver_major :: "version_arg \<Rightarrow> error + nat" where
  "semver_major a = (case new_SemVer a of Inl e \<Rightarrow> Inl e | Inr v \<Rightarrow> Inr (major v))"

text \<open>
  \<^verbatim>\<open>semver.inc\<close>: the incremented version as a string, \<^verbatim>\<open>null\<close> for an invalid
  version. A \<^verbatim>\<open>SemVer\<close> object is parsed again from its \<^verbatim>\<open>version\<close> string.
\<close>

definition semver_inc :: "version_arg \<Rightarrow> release \<Rightarrow> version_arg" where
  "semver_inc a r =
     (case new_SemVer (case a of VSemVer v \<Rightarrow> VString (format v) | _ \<Rightarrow> a) of
        Inl _ \<Rightarrow> VNull
      | Inr v \<Rightarrow> VString (format (inc v r)))"

text \<open>\<^verbatim>\<open>semver.compare\<close> and \<^verbatim>\<open>semver.rcompare\<close>: both arguments are constructed.\<close>

definition semver_compare :: "version_arg \<Rightarrow> version_arg \<Rightarrow> error + int" where
  "semver_compare a b =
     (case new_SemVer a of
        Inl e \<Rightarrow> Inl e
      | Inr v \<Rightarrow> (case new_SemVer b of Inl e \<Rightarrow> Inl e | Inr w \<Rightarrow> Inr (compare_SemVer v w)))"

definition semver_rcompare :: "version_arg \<Rightarrow> version_arg \<Rightarrow> error + int" where
  "semver_rcompare a b = semver_compare b a"

text \<open>What a template literal prints for a value \<^verbatim>\<open>main\<close> returns.\<close>

definition render :: "version_arg \<Rightarrow> string" where
  "render a = (case a of VNull \<Rightarrow> ''null'' | VString s \<Rightarrow> s | VSemVer v \<Rightarrow> format v)"

subsection \<open>\<^verbatim>\<open>Array.prototype.sort\<close> with a comparator\<close>

text \<open>
  The sort is stable and puts \<open>a\<close> before \<open>b\<close> when the comparator is negative; an
  exception of the comparator leaves the sort. Insertion sort from the right is such a
  sort; a comparator that throws on an invalid element throws in any sort of two or more
  elements.
\<close>

fun insert_by :: "('a \<Rightarrow> 'a \<Rightarrow> error + int) \<Rightarrow> 'a \<Rightarrow> 'a list \<Rightarrow> error + 'a list" where
  "insert_by cmp x [] = Inr [x]"
| "insert_by cmp x (y # ys) =
     (case cmp x y of
        Inl e \<Rightarrow> Inl e
      | Inr c \<Rightarrow>
          if c \<le> 0 then Inr (x # y # ys)
          else (case insert_by cmp x ys of Inl e \<Rightarrow> Inl e | Inr zs \<Rightarrow> Inr (y # zs)))"

fun sort_by :: "('a \<Rightarrow> 'a \<Rightarrow> error + int) \<Rightarrow> 'a list \<Rightarrow> error + 'a list" where
  "sort_by cmp [] = Inr []"
| "sort_by cmp (x # xs) =
     (case sort_by cmp xs of Inl e \<Rightarrow> Inl e | Inr ys \<Rightarrow> insert_by cmp x ys)"

subsection \<open>SemVer section of \<^verbatim>\<open>main.mjs\<close>\<close>

text \<open>\<^verbatim>\<open>latest\<close> (lines 193-197): sort the pair in descending order, take the first.\<close>

definition latest :: "version_arg \<Rightarrow> version_arg \<Rightarrow> error + version_arg" where
  "latest leftSemVer rightSemVer =
     (case sort_by semver_rcompare [leftSemVer, rightSemVer] of
        Inl e \<Rightarrow> Inl e
      | Inr semVers \<Rightarrow> (case semVers of [] \<Rightarrow> Inr VNull | s # _ \<Rightarrow> Inr s))"

text \<open>
  The end of \<^verbatim>\<open>main\<close> (lines 411-428): the bump of the previous declared version,
  then the later of the bump and the current declared version. The two declared versions
  are whatever the manifests hold under \<^verbatim>\<open>version\<close>.
\<close>

definition newSemVer :: "json \<Rightarrow> bool \<Rightarrow> bool \<Rightarrow> error + version_arg" where
  "newSemVer previousSemVer forwards backwards =
     (if forwards then
        (if backwards then Inr (semver_inc (version_arg_of_json previousSemVer) Patch)
         else Inr (semver_inc (version_arg_of_json previousSemVer) Minor))
      else (case semver_major (version_arg_of_json previousSemVer) of
              Inl e \<Rightarrow> Inl e
            | Inr m \<Rightarrow>
                if 0 = m then Inr (semver_inc (version_arg_of_json previousSemVer) Minor)
                else Inr (semver_inc (version_arg_of_json previousSemVer) Major)))"

definition main_decision :: "json \<Rightarrow> json \<Rightarrow> bool \<Rightarrow> bool \<Rightarrow> error + version_arg" where
  "main_decision previousSemVer currentSemVer forwards backwards =
     (case newSemVer previousSemVer forwards backwards of
        Inl e \<Rightarrow> Inl e
      | Inr new \<Rightarrow>
          latest new
            (case semver_parse (version_arg_of_json currentSemVer) of
               None \<Rightarrow> VNull
             | Some v \<Rightarrow> VSemVer v))"

subsection \<open>Processes, files and traces\<close>

text \<open>
  Everything the program does to its environment is an event. A \<open>world\<close> fixes what the
  environment answers during one run: the exit code (\<open>None\<close> when there is none) and
  the standard output of each spawned command, which file operations fail and with what,
  the parsed contents of the files read, and the name \<^verbatim>\<open>mkdtemp\<close> chooses. The
  progress lines written to standard error are left out.
\<close>

datatype event =
    Spawn string "string list" "string option"
  | Mkdtemp string
  | Mkdir string
  | Access string
  | ReadFile string
  | WriteFile string string
  | Rm string

record world =
  spawn_result :: "string \<Rightarrow> string list \<Rightarrow> string option \<Rightarrow> int option \<times> string"
  fs_error :: "event \<Rightarrow> error option"
  file_json :: "string \<Rightarrow> error + json"
  tmpdir :: string
  mkdtemp_suffix :: string

type_synonym 'a run = "event list \<times> (error + 'a)"

definition ret :: "'a \<Rightarrow> 'a run" where
  "ret x = ([], Inr x)"

definition throw :: "error \<Rightarrow> 'a run" where
  "throw e = ([], Inl e)"

text \<open>\<^verbatim>\<open>const x = await m; ...\<close>: an exception of \<open>m\<close> skips the rest.\<close>

definition then_run :: "'a run \<Rightarrow> ('a \<Rightarrow> 'b run) \<Rightarrow> 'b run" where
  "then_run m f =
     (case m of
        (t, Inl e) \<Rightarrow> (t, Inl e)
      | (t, Inr x) \<Rightarrow> (case f x of (t', r) \<Rightarrow> (t @ t', r)))"

definition fs_op :: "world \<Rightarrow> event \<Rightarrow> unit run" where
  "fs_op w e = ([e], case fs_error w e of None \<Rightarrow> Inr () | Some err \<Rightarrow> Inl err)"

text \<open>\<^verbatim>\<open>Promise.all\<close> over file operations: all are started, the first failure is thrown.\<close>

fun fs_all :: "world \<Rightarrow> event list \<Rightarrow> unit run" where
  "fs_all w [] = ([], Inr ())"
| "fs_all w (e # es) =
     (case fs_all w es of
        (t, r) \<Rightarrow> (e # t, case fs_error w e of None \<Rightarrow> r | Some err \<Rightarrow> Inl err))"

text \<open>\<^verbatim>\<open>path.join\<close> and \<^verbatim>\<open>path.resolve\<close> of a directory and a relative name.\<close>

definition path_join :: "string \<Rightarrow> string \<Rightarrow> string" where
  "path_join a b = a @ ''/'' @ b"

subsection \<open>OS section of \<^verbatim>\<open>main.mjs\<close>\<close>

definition spawn :: "world \<Rightarrow> string \<Rightarrow> string list \<Rightarrow> string option \<Rightarrow> (int option \<times> string) run" where
  "spawn w command args cwd = ([Spawn command args cwd], Inr (spawn_result w command args cwd))"

text \<open>\<^verbatim>\<open>exists\<close>: whether \<^verbatim>\<open>fs.promises.access\<close> succeeds.\<close>

definition exists_path :: "world \<Rightarrow> string \<Rightarrow> bool run" where
  "exists_path w path = ([Access path], Inr (fs_error w (Access path) = None))"

text \<open>\<^verbatim>\<open>withTempDir\<close>: the directory is removed on every way out of the callback.\<close>

definition withTempDir :: "world \<Rightarrow> string \<Rightarrow> (string \<Rightarrow> 'a run) \<Rightarrow> 'a run" where
  "withTempDir w prefix callback =
     (case fs_op w (Mkdtemp prefix) of
        (t, Inl e) \<Rightarrow> (t, Inl e)
      | (t, Inr _) \<Rightarrow>
          (let tempDir = prefix @ mkdtemp_suffix w
           in case callback tempDir of
                (t', r) \<Rightarrow>
                  (case fs_op w (Rm tempDir) of
                     (t'', Inl e) \<Rightarrow> (t @ t' @ t'', Inl e)
                   | (t'', Inr _) \<Rightarrow> (t @ t' @ t'', r))))"

subsection \<open>Git section of \<^verbatim>\<open>main.mjs\<close>\<close>

definition getRoot :: "world \<Rightarrow> string option run" where
  "getRoot w =
     then_run (spawn w ''git'' [''rev-parse'', ''--show-toplevel''] None)
       (\<lambda>(code, stdout). ret (if Some 0 = code then Some (trim stdout) else None))"

definition isDirty :: "world \<Rightarrow> string \<Rightarrow> bool run" where
  "isDirty w root =
     then_run (spawn w ''git'' [''status'', ''--porcelain''] (Some root))
       (\<lambda>(code, stdout). ret (\<not> (Some 0 = code \<and> [] = trim stdout)))"

definition isReachable :: "world \<Rightarrow> string \<Rightarrow> string \<Rightarrow> string \<Rightarrow> bool run" where
  "isReachable w root oldRef newRef =
     then_run (spawn w ''git'' [''rev-list'', ''--boundary'', oldRef @ ''..'' @ newRef] (Some root))
       (\<lambda>(code, stdout). ret (Some 0 = code \<and> [] \<noteq> trim stdout))"

definition getHighestVersionTag :: "world \<Rightarrow> string \<Rightarrow> string option run" where
  "getHighestVersionTag w root =
     then_run (spawn w ''git'' [''tag'', ''--list''] (Some root))
       (\<lambda>(code, stdout).
          let tags = (if Some 0 = code
                      then filter (\<lambda>tag. None \<noteq> semver_valid (VString tag))
                             (split_char (CHR 0x0A) stdout)
                      else [])
          in case sort_by (\<lambda>a b. semver_rcompare (VString a) (VString b)) tags of
               Inl e \<Rightarrow> throw e
             | Inr sortedTags \<Rightarrow> ret (case sortedTags of [] \<Rightarrow> None | tag # _ \<Rightarrow> Some tag))"

definition getCurrentBranch :: "world \<Rightarrow> string \<Rightarrow> string option run" where
  "getCurrentBranch w root =
     then_run (spawn w ''git'' [''branch'', ''--show-current''] (Some root))
       (\<lambda>(code, stdout). ret (if Some 0 = code then Some (trim stdout) else None))"

definition cloneTo :: "world \<Rightarrow> string \<Rightarrow> string \<Rightarrow> string \<Rightarrow> bool run" where
  "cloneTo w root to ref =
     then_run (spawn w ''git''
        [''clone'', ''--branch'', ref, ''-c'', ''advice.detachedHead=false'', ''--depth'', ''1'',
         ''--single-branch'', ''--no-tags'', ''--recurse-submodules'', ''--shallow-submodules'',
         ''--'', ''file://'' @ root, to] None)
       (\<lambda>(code, stdout). ret (Some 0 = code))"

subsection \<open>pNPM section of \<^verbatim>\<open>main.mjs\<close>\<close>

definition install :: "world \<Rightarrow> string \<Rightarrow> bool run" where
  "install w dir =
     then_run (spawn w ''pnpm'' [''install''] (Some dir)) (\<lambda>(code, stdout). ret (Some 0 = code))"

definition rename :: "world \<Rightarrow> string \<Rightarrow> string \<Rightarrow> bool run" where
  "rename w dir name =
     then_run (spawn w ''pnpm'' [''pkg'', ''set'', ''name='' @ name] (Some dir))
       (\<lambda>(code, stdout). ret (Some 0 = code))"

definition build :: "world \<Rightarrow> string \<Rightarrow> bool run" where
  "build w dir =
     then_run (spawn w ''pnpm'' [''run'', ''build''] (Some dir)) (\<lambda>(code, stdout). ret (Some 0 = code))"

definition packTo :: "world \<Rightarrow> string \<Rightarrow> string \<Rightarrow> bool run" where
  "packTo w dir to =
     then_run (spawn w ''pnpm'' [''pack''] (Some dir))
       (\<lambda>(packCode, packStdout).
          if Some 0 \<noteq> packCode then ret False
          else then_run (spawn w ''mv'' [path_join dir (trim packStdout), to] None)
                 (\<lambda>(mvCode, mvStdout). ret (Some 0 = mvCode)))"

subsection \<open>Main section of \<^verbatim>\<open>main.mjs\<close>\<close>

text \<open>
  The filter \<^verbatim>\<open>typeof value === "object" && "types" in value\<close> over the entries of
  the export map, left to right; \<^verbatim>\<open>in\<close> throws on \<^verbatim>\<open>null\<close>, whose type is
  \<^verbatim>\<open>"object"\<close> as well.
\<close>

fun filter_types :: "(string \<times> json) list \<Rightarrow> error + (string \<times> json) list" where
  "filter_types [] = Inr []"
| "filter_types ((key, value) # rest) =
     (case (if typeof_object value then types_in value else Inr False) of
        Inl e \<Rightarrow> Inl e
      | Inr keep \<Rightarrow>
          (case filter_types rest of
             Inl e \<Rightarrow> Inl e
           | Inr kept \<Rightarrow> Inr (if keep then (key, value) # kept else kept)))"

text \<open>
  Lines 231-249 of \<^verbatim>\<open>createTgzAndGetEntryPointsAndVersion\<close>: the entry points and
  the declared version of a parsed manifest. \<^verbatim>\<open>entryPoints.sort()\<close> orders strings
  by their code units.
\<close>

definition entryPointsAndVersion :: "json \<Rightarrow> error + (string list \<times> json)" where
  "entryPointsAndVersion packageJsonContents =
     (if \<not> typeof_object packageJsonContents then Inl (Error ''error: malformed package.json'')
      else case types_in packageJsonContents of
        Inl e \<Rightarrow> Inl e
      | Inr rootTypes \<Rightarrow>
     (case property packageJsonContents ''exports'' of
        Inl e \<Rightarrow> Inl e
      | Inr exports \<Rightarrow>
     (case Object_entries (nullish exports (JObj [])) of
        Inl e \<Rightarrow> Inl e
      | Inr entries \<Rightarrow>
     (case filter_types entries of
        Inl e \<Rightarrow> Inl e
      | Inr kept \<Rightarrow>
     (case property packageJsonContents ''version'' of
        Inl e \<Rightarrow> Inl e
      | Inr version \<Rightarrow>
          (let entryPoints = (if rootTypes then [[]] else []) @ map fst kept;
               entryPoints = (if 0 = length entryPoints then entryPoints @ [[]] else entryPoints)
           in Inr (sort entryPoints, nullish version JNull)))))))"

text \<open>\<^verbatim>\<open>JSON.parse(fs.readFileSync(path))\<close>: the parsed file, or what reading or parsing throws.\<close>

definition read_json :: "world \<Rightarrow> string \<Rightarrow> json run" where
  "read_json w path = ([ReadFile path], file_json w path)"

definition createTgzAndGetEntryPointsAndVersion ::
  "world \<Rightarrow> string \<Rightarrow> string \<Rightarrow> string \<Rightarrow> string \<Rightarrow> (string list \<times> json) run" where
  "createTgzAndGetEntryPointsAndVersion w root base ref name =
     (let dir = path_join base name;
          packageJsonPath = path_join dir ''package.json''
      in
      then_run (fs_op w (Mkdir dir)) (\<lambda>_.
      then_run (cloneTo w root dir ref) (\<lambda>cloned.
      if \<not> cloned then throw (Error ''error: failed to clone to temporary directory'') else
      then_run (exists_path w packageJsonPath) (\<lambda>found.
      if \<not> found then throw (Error ''error: no package.json found after cloning'') else
      then_run (rename w dir name) (\<lambda>renamed.
      if \<not> renamed then throw (Error ''error: failed to rename'') else
      then_run (install w dir) (\<lambda>installed.
      if \<not> installed then throw (Error ''error: failed to install'') else
      then_run (build w dir) (\<lambda>built.
      if \<not> built then throw (Error ''error: failed to build'') else
      then_run (packTo w dir (path_join base (name @ ''.tgz''))) (\<lambda>packed.
      if \<not> packed then throw (Error ''error: failed to pack'') else
      then_run (read_json w packageJsonPath) (\<lambda>packageJsonContents.
      ([], entryPointsAndVersion packageJsonContents))))))))))"

text \<open>The text of the witness programs (lines 276-333).\<close>

definition dq :: string where
  "dq = [CHR 0x22]"

definition nl :: string where
  "nl = [CHR 0x0A]"

text \<open>The import of one entry point; \<open>role\<close> is \<^verbatim>\<open>previousVersion\<close> or \<^verbatim>\<open>currentVersion\<close>.\<close>

definition import_line :: "string \<Rightarrow> string \<Rightarrow> string" where
  "import_line role entryPoint =
     (if [] = entryPoint
      then ''import * as '' @ role @ ''_ from '' @ dq @ role @ dq @ '';''
      else ''import * as '' @ role @ ''_'' @ entryPoint @ '' from '' @
           dq @ role @ ''/'' @ entryPoint @ dq @ '';'')"

definition aggregate_line :: "string \<Rightarrow> string list \<Rightarrow> string" where
  "aggregate_line role entryPoints =
     ''const '' @ role @ '' = { '' @
     join '', '' (map (\<lambda>entryPoint. ''_'' @ entryPoint @ '': '' @ role @ ''_'' @ entryPoint) entryPoints) @
     '' };''"

definition commonSource :: "string list \<Rightarrow> string list \<Rightarrow> string" where
  "commonSource previousVersionEndpoints currentVersionEndpoints =
     join nl
       [dq @ ''use strict'' @ dq @ '';'',
        [],
        join nl (map (import_line ''previousVersion'') previousVersionEndpoints),
        [],
        join nl (map (import_line ''currentVersion'') currentVersionEndpoints),
        [],
        aggregate_line ''previousVersion'' previousVersionEndpoints,
        aggregate_line ''currentVersion'' currentVersionEndpoints,
        []]"

definition currentFitsPrevious_ts :: "string list \<Rightarrow> string list \<Rightarrow> string" where
  "currentFitsPrevious_ts previousVersionEndpoints currentVersionEndpoints =
     join nl
       [commonSource previousVersionEndpoints currentVersionEndpoints,
        ''((_: typeof previousVersion): void => void {})(currentVersion);'',
        []]"

definition previousFitsCurrent_ts :: "string list \<Rightarrow> string list \<Rightarrow> string" where
  "previousFitsCurrent_ts previousVersionEndpoints currentVersionEndpoints =
     join nl
       [commonSource previousVersionEndpoints currentVersionEndpoints,
        ''((_: typeof currentVersion): void => void {})(previousVersion);'',
        []]"

text \<open>\<^verbatim>\<open>JSON.stringify({dependencies: {...}}, null, 2)\<close>\<close>

definition package_json_text :: string where
  "package_json_text =
     join nl
       [''{'',
        ''  '' @ dq @ ''dependencies'' @ dq @ '': {'',
        ''    '' @ dq @ ''previousVersion'' @ dq @ '': '' @ dq @ ''./previousVersion.tgz'' @ dq @ '','',
        ''    '' @ dq @ ''currentVersion'' @ dq @ '': '' @ dq @ ''./currentVersion.tgz'' @ dq,
        ''  }'',
        ''}'']"

text \<open>
  The two packagings run one after the other (each is awaited inside the array literal);
  the three files are written together.
\<close>

definition hydrateBaseDirectoryAndGetSemver ::
  "world \<Rightarrow> string \<Rightarrow> string \<Rightarrow> string \<Rightarrow> string \<Rightarrow> (json \<times> json) run" where
  "hydrateBaseDirectoryAndGetSemver w root previousVersion currentVersion base =
     then_run (createTgzAndGetEntryPointsAndVersion w root base previousVersion ''previousVersion'')
       (\<lambda>(previousVersionEndpoints, previousSemVer).
     then_run (createTgzAndGetEntryPointsAndVersion w root base currentVersion ''currentVersion'')
       (\<lambda>(currentVersionEndpoints, currentSemVer).
     then_run (fs_all w
        [WriteFile (path_join base ''package.json'') package_json_text,
         WriteFile (path_join base ''currentFitsPrevious.ts'')
           (currentFitsPrevious_ts previousVersionEndpoints currentVersionEndpoints),
         WriteFile (path_join base ''previousFitsCurrent.ts'')
           (previousFitsCurrent_ts previousVersionEndpoints currentVersionEndpoints)])
       (\<lambda>_.
     then_run (install w base) (\<lambda>installed.
     if \<not> installed then throw (Error ''error: failed to install'')
     else ret (previousSemVer, currentSemVer)))))"

definition tscOk :: "world \<Rightarrow> string \<Rightarrow> string \<Rightarrow> bool run" where
  "tscOk w base file =
     then_run (spawn w ''tsc'' [''--noEmit'', ''--strict'', path_join base file] (Some base))
       (\<lambda>(code, stdout). ret (Some 0 = code))"

definition liskovSemVerForwardsBackwards ::
  "world \<Rightarrow> string \<Rightarrow> string \<Rightarrow> string \<Rightarrow> (json \<times> json \<times> bool \<times> bool) run" where
  "liskovSemVerForwardsBackwards w root previousVersion currentVersion =
     withTempDir w (path_join (tmpdir w) ''liskov-semver-'') (\<lambda>base.
       then_run (hydrateBaseDirectoryAndGetSemver w root previousVersion currentVersion base)
         (\<lambda>(previousSemVer, currentSemVer).
       then_run (tscOk w base ''currentFitsPrevious.ts'') (\<lambda>currentFitsPrevious.
       then_run (tscOk w base ''previousFitsCurrent.ts'') (\<lambda>previousFitsCurrent.
       ret (previousSemVer, currentSemVer, currentFitsPrevious, previousFitsCurrent)))))"

text \<open>\<^verbatim>\<open>main\<close> of \<^verbatim>\<open>src/main.mjs\<close> (lines 379-429).\<close>

definition main :: "world \<Rightarrow> bool \<Rightarrow> bool \<Rightarrow> version_arg run" where
  "main w errorOnDirty errorOnUnreachable =
     then_run (getRoot w) (\<lambda>root.
     case root of
       None \<Rightarrow> throw (Error ''error: cannot determine git root'')
     | Some root \<Rightarrow>
     then_run (if errorOnDirty then isDirty w root else ret False) (\<lambda>dirty.
     if errorOnDirty \<and> dirty then throw (Error ''error: dirty working tree'') else
     then_run (getHighestVersionTag w root) (\<lambda>previousVersion.
     case previousVersion of
       None \<Rightarrow> ret (VString ''0.1.0'')
     | Some previousVersion \<Rightarrow>
     then_run (getCurrentBranch w root) (\<lambda>currentVersion.
     case currentVersion of
       None \<Rightarrow> throw (Error ''error: no current version --- detached HEAD?'')
     | Some currentVersion \<Rightarrow>
     then_run (if errorOnUnreachable then isReachable w root previousVersion currentVersion
               else ret True) (\<lambda>reachable.
     if errorOnUnreachable \<and> \<not> reachable
     then throw (Error ''error: current version is not reachable from previous version'') else
     then_run (liskovSemVerForwardsBackwards w root previousVersion currentVersion)
       (\<lambda>(previousSemVer, currentSemVer, forwards, backwards).
     ([], main_decision previousSemVer currentSemVer forwards backwards)))))))"

subsection \<open>\<^verbatim>\<open>main\<close> of \<^verbatim>\<open>src/unnamed/part_000\<close>\<close>

definition getRefCommit :: "world \<Rightarrow> string \<Rightarrow> string \<Rightarrow> string \<Rightarrow> string option run" where
  "getRefCommit w root ref refType =
     then_run (spawn w ''git'' [''rev-list'', ''-1'', refType @ ''s/'' @ ref] (Some root))
       (\<lambda>(code, stdout). ret (if Some 0 = code then Some (trim stdout) else None))"

text \<open>
  \<^verbatim>\<open>main\<close> of the first revision in \<^verbatim>\<open>src/unnamed/part_000\<close> (lines 446-512): it
  resolves both references to commits and returns early when they are the same commit.
  Its packaging differs from \<^verbatim>\<open>main.mjs\<close> only in the package-manager commands, so
  \<^verbatim>\<open>liskovSemVerForwardsBackwards\<close> is a parameter here.
\<close>

definition main_part_000 ::
  "world \<Rightarrow> (string \<Rightarrow> string \<Rightarrow> string \<Rightarrow> (json \<times> json \<times> bool \<times> bool) run) \<Rightarrow>
   bool \<Rightarrow> bool \<Rightarrow> version_arg run" where
  "main_part_000 w liskov errorOnDirty errorOnUnreachable =
     then_run (getRoot w) (\<lambda>root.
     case root of
       None \<Rightarrow> throw (Error ''error: cannot determine git root'')
     | Some root \<Rightarrow>
     then_run (if errorOnDirty then isDirty w root else ret False) (\<lambda>dirty.
     if errorOnDirty \<and> dirty then throw (Error ''error: dirty working tree'') else
     then_run (getHighestVersionTag w root) (\<lambda>previousVersion.
     case previousVersion of
       None \<Rightarrow> ret (VString ''0.1.0'')
     | Some previousVersion \<Rightarrow>
     then_run (getRefCommit w root previousVersion ''tag'') (\<lambda>previousVersionHash.
     case previousVersionHash of
       None \<Rightarrow> throw (Error (''error: cannot determine commit for previous version ('' @
                               previousVersion @ '')''))
     | Some previousVersionHash \<Rightarrow>
     then_run (getCurrentBranch w root) (\<lambda>currentVersion.
     case currentVersion of
       None \<Rightarrow> throw (Error ''error: no current version --- detached HEAD?'')
     | Some currentVersion \<Rightarrow>
     then_run (getRefCommit w root currentVersion ''head'') (\<lambda>currentVersionHash.
     case currentVersionHash of
       None \<Rightarrow> throw (Error (''error: cannot determine commit for current version ('' @
                               currentVersion @ '')''))
     | Some currentVersionHash \<Rightarrow>
     if previousVersionHash = currentVersionHash
     then ret (case semver_valid (VString previousVersion) of
                 None \<Rightarrow> VNull
               | Some v \<Rightarrow> VString v) else
     then_run (if errorOnUnreachable then isReachable w root previousVersion currentVersion
               else ret True) (\<lambda>reachable.
     if errorOnUnreachable \<and> \<not> reachable
     then throw (Error ''error: current version is not reachable from previous version'') else
     then_run (liskov root previousVersion currentVersion)
       (\<lambda>(previousSemVer, currentSemVer, forwards, backwards).
     ([], main_decision previousSemVer currentSemVer forwards backwards)))))))))"

text \<open>
  The same lines in the revisions of \<^verbatim>\<open>src/unnamed/part_000\<close> (lines 302-318): there
  the list is not completed with the root entry point when it is empty.
\<close>

definition entryPointsAndVersion_part_000 :: "json \<Rightarrow> error + (string list \<times> json)" where
  "entryPointsAndVersion_part_000 packageJsonContents =
     (if \<not> typeof_object packageJsonContents then Inl (Error ''error: malformed package.json'')
      else case types_in packageJsonContents of
        Inl e \<Rightarrow> Inl e
      | Inr rootTypes \<Rightarrow>
     (case property packageJsonContents ''exports'' of
        Inl e \<Rightarrow> Inl e
      | Inr exports \<Rightarrow>
     (case Object_entries (nullish exports (JObj [])) of
        Inl e \<Rightarrow> Inl e
      | Inr entries \<Rightarrow>
     (case filter_types entries of
        Inl e \<Rightarrow> Inl e
      | Inr kept \<Rightarrow>
     (case property packageJsonContents ''version'' of
        Inl e \<Rightarrow> Inl e
      | Inr version \<Rightarrow>
          (let entryPoints = (if rootTypes then [[]] else []) @ map fst kept
           in Inr (sort entryPoints, nullish version JNull)))))))"

section \<open>Notions of the specification\<close>



text \<open>
  The specification's entry points, in its words: the root entry point when the manifest
  declares a root \<^verbatim>\<open>types\<close> field, together with the keys of the export map whose value
  is an object declaring \<^verbatim>\<open>types\<close>; the root entry point alone when there is none.
  The export map's entries are those JavaScript enumerates (indices for an array).
\<close>

definition declares_types :: "json \<Rightarrow> bool" where
  "declares_types x = (case x of JObj kvs \<Rightarrow> map_of kvs ''types'' \<noteq> None | _ \<Rightarrow> False)"

definition export_entries :: "json \<Rightarrow> (string \<times> json) list" where
  "export_entries manifest =
     (case property manifest ''exports'' of
        Inl _ \<Rightarrow> []
      | Inr x \<Rightarrow> (case Object_entries (nullish x (JObj [])) of Inl _ \<Rightarrow> [] | Inr es \<Rightarrow> es))"

definition spec_entry_points :: "json \<Rightarrow> string set" where
  "spec_entry_points manifest =
     (let keys = (if declares_types manifest then {[]} else {}) \<union>
                 set (map fst (filter (\<lambda>kv. declares_types (snd kv)) (export_entries manifest)))
      in if keys = {} then {[]} else keys)"

section \<open>Auxiliary notions for the proofs\<close>


definition tag_version :: "string \<Rightarrow> SemVer" where
  "tag_version t =
     (case parse_version t of
        None \<Rightarrow> \<lparr>major = 0, minor = 0, patch = 0, prerelease = [], buildmeta = []\<rparr>
      | Some v \<Rightarrow> v)"

definition tag_order :: "string \<Rightarrow> string \<Rightarrow> int" where
  "tag_order a b = compare_SemVer (tag_version b) (tag_version a)"

text \<open>The texts of the files a run writes, in the order of writing.\<close>

definition written_texts :: "event list \<Rightarrow> string list" where
  "written_texts t = concat (map (\<lambda>e. case e of WriteFile path text \<Rightarrow> [text] | _ \<Rightarrow> []) t)"

section \<open>Example environments and manifests\<close>

text \<open>Environments for concrete runs: git answers by its arguments, every other command
  succeeds silently, and every manifest read is the given one.\<close>

definition git_world :: "(string list \<Rightarrow> int option \<times> string) \<Rightarrow> json \<Rightarrow> world" where
  "git_world git manifest =
     \<lparr>spawn_result = (\<lambda>command args cwd. if command = ''git'' then git args else (Some 0, [])),
      fs_error = (\<lambda>e. None),
      file_json = (\<lambda>path. Inr manifest),
      tmpdir = ''/tmp'',
      mkdtemp_suffix = ''abc123''\<rparr>"

definition tags_output :: string where
  "tags_output = ''v1.0.0'' @ nl @ ''1.2.0'' @ nl @ ''latest'' @ nl @ ''1.2.0-rc.1'' @ nl"

definition tags_world :: world where
  "tags_world =
     git_world (\<lambda>args. if args = [''tag'', ''--list''] then (Some 0, tags_output) else (Some 1, []))
       (JObj [])"

definition untagged_world :: world where
  "untagged_world =
     git_world (\<lambda>args.
        if args = [''rev-parse'', ''--show-toplevel''] then (Some 0, ''/repo'' @ nl)
        else if args = [''status'', ''--porcelain''] then (Some 0, [])
        else if args = [''tag'', ''--list''] then (Some 0, ''latest'' @ nl @ ''nightly'' @ nl)
        else (Some 1, []))
       (JObj [])"

definition status_fails_world :: world where
  "status_fails_world =
     git_world (\<lambda>args.
        if args = [''rev-parse'', ''--show-toplevel''] then (Some 0, ''/repo'' @ nl)
        else if args = [''status'', ''--porcelain''] then (Some 128, [])
        else (Some 0, []))
       (JObj [])"

definition same_commit_world :: world where
  "same_commit_world =
     git_world (\<lambda>args.
        if args = [''rev-parse'', ''--show-toplevel''] then (Some 0, ''/repo'' @ nl)
        else if args = [''status'', ''--porcelain''] then (Some 0, [])
        else if args = [''tag'', ''--list''] then (Some 0, ''v1.0.0'' @ nl)
        else if args = [''rev-list'', ''-1'', ''tags/v1.0.0''] then (Some 0, ''0c7ec5e'' @ nl)
        else if args = [''branch'', ''--show-current''] then (Some 0, ''main'' @ nl)
        else if args = [''rev-list'', ''-1'', ''heads/main''] then (Some 0, ''0c7ec5e'' @ nl)
        else (Some 0, []))
       (JObj [(''name'', JStr ''pkg''), (''version'', JStr ''0.9.0''), (''types'', JStr ''index.d.ts'')])"

definition other_world :: world where
  "other_world =
     git_world (\<lambda>args. (Some 0, []))
       (JObj [(''name'', JStr ''other''), (''version'', JStr ''3.1.4''), (''types'', JStr ''lib.d.ts'')])"

definition null_export_manifest :: json where
  "null_export_manifest =
     JObj [(''name'', JStr ''pkg''), (''version'', JStr ''1.0.0''),
           (''exports'', JObj [(''./internal'', JNull)])]"

definition double_root_manifest :: json where
  "double_root_manifest =
     JObj [(''name'', JStr ''pkg''), (''types'', JStr ''index.d.ts''),
           (''exports'', JObj [([], JObj [(''types'', JStr ''index.d.ts'')])])]"

definition bad_version_manifest :: json where
  "bad_version_manifest = JObj [(''name'', JStr ''pkg''), (''version'', JStr ''one.two'')]"

section \<open>Properties of the \<^verbatim>\<open>semver\<close> model\<close>

subsection \<open>Decimal notation and parsing\<close>






















subsection \<open>The order of versions\<close>

lemma compareIdentifiers_flip: "compareIdentifiers b a = - compareIdentifiers a b"
  by (cases a; cases b) auto

lemma compareIdentifiers_zero: "compareIdentifiers a b = 0 \<longleftrightarrow> a = b"
  by (cases a; cases b) auto

lemma compareIdentifiers_trans:
  "compareIdentifiers a b \<le> 0 \<Longrightarrow> compareIdentifiers b c \<le> 0 \<Longrightarrow> compareIdentifiers a c \<le> 0"
  by (cases a; cases b; cases c) (auto split: if_splits)

lemma compare_idents_flip: "compare_idents ys xs = - compare_idents xs ys"
proof (induction xs ys rule: compare_idents.induct)
  case (4 a as b bs)
  then show ?case using compareIdentifiers_flip[of a b] by auto
qed auto

lemma compare_idents_trans:
  "compare_idents xs ys \<le> 0 \<Longrightarrow> compare_idents ys zs \<le> 0 \<Longrightarrow> compare_idents xs zs \<le> 0"
proof (induction xs arbitrary: ys zs)
  case Nil
  then show ?case by (cases zs) auto
next
  case (Cons a as)
  from Cons.prems obtain b bs where ys: "ys = b # bs" by (cases ys) auto
  with Cons.prems obtain c cs where zs: "zs = c # cs" by (cases zs) auto
  show ?case
  proof (cases "a = b")
    case True
    show ?thesis
    proof (cases "b = c")
      case bc: True
      with True Cons ys zs show ?thesis by simp
    next
      case bc: False
      with True Cons.prems ys zs show ?thesis by simp
    qed
  next
    case ab: False
    show ?thesis
    proof (cases "b = c")
      case True
      with ab Cons.prems ys zs show ?thesis by simp
    next
      case bc: False
      from ab bc Cons.prems ys zs
      have 1: "compareIdentifiers a b \<le> 0" and 2: "compareIdentifiers b c \<le> 0" by simp_all
      have 3: "compareIdentifiers a c \<le> 0" by (rule compareIdentifiers_trans[OF 1 2])
      have "a \<noteq> c"
      proof
        assume "a = c"
        with 2 have "compareIdentifiers b a \<le> 0" by simp
        with 1 have "compareIdentifiers a b = 0" using compareIdentifiers_flip[of a b] by simp
        with ab show False by (simp add: compareIdentifiers_zero)
      qed
      with 3 ys zs show ?thesis by simp
    qed
  qed
qed

lemma comparePre_flip: "comparePre w v = - comparePre v w"
  using compare_idents_flip[of "prerelease v" "prerelease w"] by (simp add: comparePre_def)

lemma comparePre_trans:
  "comparePre a b \<le> 0 \<Longrightarrow> comparePre b c \<le> 0 \<Longrightarrow> comparePre a c \<le> 0"
  using compare_idents_trans[of "prerelease a" "prerelease b" "prerelease c"]
  by (auto simp: comparePre_def split: if_splits)

lemma compareMain_flip: "compareMain w v = - compareMain v w"
  by (auto simp: compareMain_def compare_nat_def)

lemma compareMain_trans:
  "compareMain a b \<le> 0 \<Longrightarrow> compareMain b c \<le> 0 \<Longrightarrow> compareMain a c \<le> 0"
  by (auto simp: compareMain_def compare_nat_def split: if_splits)

lemma compareMain_squeeze:
  "compareMain a b \<le> 0 \<Longrightarrow> compareMain b c \<le> 0 \<Longrightarrow> compareMain a c = 0 \<Longrightarrow>
   compareMain a b = 0 \<and> compareMain b c = 0"
  by (auto simp: compareMain_def compare_nat_def split: if_splits)

lemma compare_SemVer_flip: "compare_SemVer w v = - compare_SemVer v w"
  by (simp add: compare_SemVer_def compareMain_flip[of w v] comparePre_flip[of w v])

lemma compare_SemVer_refl: "compare_SemVer v v = 0"
  using compare_SemVer_flip[of v v] by simp

lemma compare_SemVer_main_le: "compare_SemVer a b \<le> 0 \<Longrightarrow> compareMain a b \<le> 0"
  by (auto simp: compare_SemVer_def split: if_splits)

lemma compare_SemVer_trans:
  assumes ab: "compare_SemVer a b \<le> 0" and bc: "compare_SemVer b c \<le> 0"
  shows "compare_SemVer a c \<le> 0"
proof (cases "compareMain a c = 0")
  case True
  have m: "compareMain a b = 0 \<and> compareMain b c = 0"
    using compareMain_squeeze[OF compare_SemVer_main_le[OF ab] compare_SemVer_main_le[OF bc] True] .
  with ab bc have "comparePre a b \<le> 0" "comparePre b c \<le> 0"
    by (simp_all add: compare_SemVer_def)
  then have "comparePre a c \<le> 0" by (rule comparePre_trans)
  with True show ?thesis by (simp add: compare_SemVer_def)
next
  case False
  have "compareMain a c \<le> 0"
    using compareMain_trans[OF compare_SemVer_main_le[OF ab] compare_SemVer_main_le[OF bc]] .
  with False show ?thesis by (simp add: compare_SemVer_def)
qed




subsection \<open>The functions of the decision on valid versions\<close>




lemma latest_null: "latest a VNull = Inl TypeError"
  by (simp add: latest_def semver_rcompare_def semver_compare_def new_SemVer_def
        split: sum.splits)

lemma latest_null_left: "latest VNull b = Inl TypeError"
  by (simp add: latest_def semver_rcompare_def semver_compare_def new_SemVer_def
        split: sum.splits version_arg.splits option.splits)


lemma new_SemVer_error: "new_SemVer a = Inl e \<Longrightarrow> e = TypeError"
  by (auto simp: new_SemVer_def split: version_arg.splits option.splits)

lemma main_decision_invalid_current:
  "semver_parse (version_arg_of_json C) = None \<Longrightarrow> main_decision P C f b = Inl TypeError"
  by (cases "newSemVer P f b")
    (auto simp: main_decision_def latest_null newSemVer_def semver_major_def
      dest: new_SemVer_error split: if_splits sum.splits)



section \<open>The version decision\<close>





section \<open>The highest version tag\<close>

lemma insert_by_pure:
  assumes "\<And>y. y \<in> set ys \<Longrightarrow> cmp x y = Inr (c x y)"
  shows "\<exists>zs. insert_by cmp x ys = Inr zs \<and> set zs = insert x (set ys) \<and> zs \<noteq> []
            \<and> hd zs = (if ys = [] then x else if c x (hd ys) \<le> 0 then x else hd ys)"
  using assms
proof (induction ys)
  case Nil
  then show ?case by simp
next
  case (Cons y ys)
  have xy: "cmp x y = Inr (c x y)" using Cons.prems by simp
  show ?case
  proof (cases "c x y \<le> 0")
    case True
    with xy show ?thesis by simp
  next
    case False
    from Cons obtain zs where "insert_by cmp x ys = Inr zs" "set zs = insert x (set ys)"
      by fastforce
    with xy False show ?thesis by auto
  qed
qed

lemma sort_by_pure:
  assumes cmp: "\<And>a b. a \<in> set xs \<Longrightarrow> b \<in> set xs \<Longrightarrow> cmp a b = Inr (c a b)"
    and flip: "\<And>a b. c b a = - c a b"
    and trans: "\<And>a b d. c a b \<le> 0 \<Longrightarrow> c b d \<le> 0 \<Longrightarrow> c a d \<le> (0::int)"
  shows "\<exists>ys. sort_by cmp xs = Inr ys \<and> set ys = set xs \<and> (ys = [] \<longleftrightarrow> xs = [])
            \<and> (\<forall>u\<in>set xs. c (hd ys) u \<le> 0)"
  using cmp
proof (induction xs)
  case Nil
  then show ?case by simp
next
  case (Cons x xs)
  from Cons obtain ys where ys: "sort_by cmp xs = Inr ys" "set ys = set xs"
    "\<forall>u\<in>set xs. c (hd ys) u \<le> 0"
    by fastforce
  have "\<And>y. y \<in> set ys \<Longrightarrow> cmp x y = Inr (c x y)"
    using Cons.prems ys(2) by simp
  from insert_by_pure[of ys cmp x c, OF this]
  obtain zs where zs: "insert_by cmp x ys = Inr zs" "set zs = insert x (set ys)" "zs \<noteq> []"
    "hd zs = (if ys = [] then x else if c x (hd ys) \<le> 0 then x else hd ys)"
    by blast
  have refl: "c x x \<le> 0" using flip[of x x] by simp
  have dom: "c (hd zs) u \<le> 0" if u: "u \<in> set (x # xs)" for u
  proof (cases "ys = []")
    case True
    with ys(2) u zs(4) refl show ?thesis by simp
  next
    case ne: False
    show ?thesis
    proof (cases "c x (hd ys) \<le> 0")
      case True
      then have h: "hd zs = x" using zs(4) by simp
      show ?thesis
      proof (cases "u = x")
        case True
        with h refl show ?thesis by simp
      next
        case False
        with u have "c (hd ys) u \<le> 0" using ys(3) by simp
        with True h show ?thesis using trans by blast
      qed
    next
      case False
      then have h: "hd zs = hd ys" using zs(4) ne by simp
      show ?thesis
      proof (cases "u = x")
        case True
        with False h flip[of x "hd ys"] show ?thesis by simp
      next
        case False
        with u h ys(3) show ?thesis by simp
      qed
    qed
  qed
  from zs ys dom show ?case by simp
qed

lemma semver_valid_iff: "semver_valid (VString t) \<noteq> None \<longleftrightarrow> parse_version t \<noteq> None"
  by (simp add: semver_valid_def semver_parse_def new_SemVer_def split: option.splits)

lemma tag_rcompare_valid:
  "parse_version a \<noteq> None \<Longrightarrow> parse_version b \<noteq> None \<Longrightarrow>
   semver_rcompare (VString a) (VString b) = Inr (tag_order a b)"
  by (auto simp: semver_rcompare_def semver_compare_def new_SemVer_def tag_order_def
      tag_version_def)

lemma tag_order_flip: "tag_order b a = - tag_order a b"
  unfolding tag_order_def by (rule compare_SemVer_flip)

lemma tag_order_trans: "tag_order a b \<le> 0 \<Longrightarrow> tag_order b d \<le> 0 \<Longrightarrow> tag_order a d \<le> 0"
  unfolding tag_order_def using compare_SemVer_trans by blast

lemma sort_tags:
  assumes "\<And>t. t \<in> set tags \<Longrightarrow> parse_version t \<noteq> None"
  shows "\<exists>ys. sort_by (\<lambda>a b. semver_rcompare (VString a) (VString b)) tags = Inr ys
            \<and> set ys = set tags \<and> (ys = [] \<longleftrightarrow> tags = [])
            \<and> (\<forall>u\<in>set tags. tag_order (hd ys) u \<le> 0)"
proof (rule sort_by_pure)
  show "semver_rcompare (VString a) (VString b) = Inr (tag_order a b)"
    if "a \<in> set tags" "b \<in> set tags" for a b
    using that assms by (simp add: tag_rcompare_valid)
  show "tag_order b a = - tag_order a b" for a b by (rule tag_order_flip)
  show "tag_order a b \<le> 0 \<Longrightarrow> tag_order b d \<le> 0 \<Longrightarrow> tag_order a d \<le> 0" for a b d
    by (rule tag_order_trans)
qed

text \<open>
  Claim C4. When \<^verbatim>\<open>git tag --list\<close> succeeds, \<^verbatim>\<open>getHighestVersionTag\<close> returns
  \<^verbatim>\<open>null\<close> exactly when no listed name is a valid semantic version; otherwise it
  returns a listed, valid name that no listed valid name exceeds under the
  semantic-version order. Names that are not valid versions play no part.
\<close>

theorem C4_highest_version_tag:
  assumes "spawn_result w ''git'' [''tag'', ''--list''] (Some root) = (Some 0, stdout)"
  shows "\<exists>r. snd (getHighestVersionTag w root) = Inr r
     \<and> (r = None \<longleftrightarrow> filter (\<lambda>t. semver_valid (VString t) \<noteq> None) (split_char (CHR 0x0A) stdout) = [])
     \<and> (\<forall>t. r = Some t \<longrightarrow>
           t \<in> set (split_char (CHR 0x0A) stdout) \<and> semver_valid (VString t) \<noteq> None
         \<and> (\<forall>u\<in>set (split_char (CHR 0x0A) stdout). semver_valid (VString u) \<noteq> None \<longrightarrow>
               (\<exists>k. semver_compare (VString u) (VString t) = Inr k \<and> k \<le> 0)))"
proof -
  let ?lines = "split_char (CHR 0x0A) stdout"
  let ?tags = "filter (\<lambda>tag. None \<noteq> semver_valid (VString tag)) ?lines"
  have mem_tags: "x \<in> set ?tags \<longleftrightarrow> x \<in> set ?lines \<and> semver_valid (VString x) \<noteq> None" for x
    by (cases "semver_valid (VString x)") simp_all
  have v: "parse_version t \<noteq> None" if "t \<in> set ?tags" for t
    using that mem_tags[of t] semver_valid_iff[of t] by blast
  from sort_tags[of ?tags, OF v]
  obtain ys where ys: "sort_by (\<lambda>a b. semver_rcompare (VString a) (VString b)) ?tags = Inr ys"
    "set ys = set ?tags" "ys = [] \<longleftrightarrow> ?tags = []" "\<forall>u\<in>set ?tags. tag_order (hd ys) u \<le> 0"
    by blast
  let ?r = "case ys of [] \<Rightarrow> None | tag # _ \<Rightarrow> Some tag"
  have run: "snd (getHighestVersionTag w root) = Inr ?r"
    using assms ys(1)
    by (simp add: getHighestVersionTag_def then_run_def spawn_def ret_def throw_def)
  have e: "(\<lambda>tag. None \<noteq> semver_valid (VString tag)) = (\<lambda>t. semver_valid (VString t) \<noteq> None)"
    by (rule ext) metis
  have none: "?r = None \<longleftrightarrow> filter (\<lambda>t. semver_valid (VString t) \<noteq> None) ?lines = []"
    using ys(3) by (cases ys) (simp_all add: e)
  have some: "t \<in> set ?lines \<and> semver_valid (VString t) \<noteq> None
         \<and> (\<forall>u\<in>set ?lines. semver_valid (VString u) \<noteq> None \<longrightarrow>
               (\<exists>k. semver_compare (VString u) (VString t) = Inr k \<and> k \<le> 0))"
    if t: "?r = Some t" for t
  proof -
    from t have h: "ys \<noteq> []" "hd ys = t" by (cases ys; simp)+
    then have mem: "t \<in> set ?tags" using ys(2) hd_in_set[of ys] by simp
    have "\<exists>k. semver_compare (VString u) (VString t) = Inr k \<and> k \<le> 0"
      if u: "u \<in> set ?lines" "semver_valid (VString u) \<noteq> None" for u
    proof -
      from u have ut: "u \<in> set ?tags" using mem_tags[of u] by blast
      then have "tag_order t u \<le> 0" using ys(4) h by simp
      moreover have "semver_rcompare (VString t) (VString u) = Inr (tag_order t u)"
        using tag_rcompare_valid v[OF mem] v[OF ut] by simp
      ultimately show ?thesis by (simp add: semver_rcompare_def)
    qed
    moreover from mem have "t \<in> set ?lines" and "semver_valid (VString t) \<noteq> None"
      using mem_tags[of t] by blast+
    ultimately show ?thesis by blast
  qed
  have third: "\<forall>t. ?r = Some t \<longrightarrow>
           t \<in> set ?lines \<and> semver_valid (VString t) \<noteq> None
         \<and> (\<forall>u\<in>set ?lines. semver_valid (VString u) \<noteq> None \<longrightarrow>
               (\<exists>k. semver_compare (VString u) (VString t) = Inr k \<and> k \<le> 0))"
    by (intro allI impI) (rule some)
  show ?thesis
    by (rule exI[of _ ?r]) (rule conjI[OF run conjI[OF none third]])
qed

theorem C4_highest_version_tag_witness:
  "spawn_result tags_world ''git'' [''tag'', ''--list''] (Some ''/repo'') = (Some 0, tags_output)
   \<and> snd (getHighestVersionTag tags_world ''/repo'') = Inr (Some ''1.2.0'')
   \<and> (\<exists>k. semver_compare (VString ''v1.0.0'') (VString ''1.2.0'') = Inr k \<and> k \<le> 0)"
proof -
  have out: "spawn_result tags_world ''git'' [''tag'', ''--list''] (Some ''/repo'') = (Some 0, tags_output)"
    by (simp add: tags_world_def git_world_def)
  have run: "snd (getHighestVersionTag tags_world ''/repo'') = Inr (Some ''1.2.0'')"
    by code_simp
  have u: "''v1.0.0'' \<in> set (split_char (CHR 0x0A) tags_output)" by code_simp
  have uv: "semver_valid (VString ''v1.0.0'') \<noteq> None" by code_simp
  from C4_highest_version_tag[OF out] run u uv
  have "\<exists>k. semver_compare (VString ''v1.0.0'') (VString ''1.2.0'') = Inr k \<and> k \<le> 0"
    by (metis sum.inject(2))
  with out run show ?thesis by blast
qed

section \<open>The early returns of \<^verbatim>\<open>main\<close>\<close>

lemma then_run_eq:
  "then_run m f =
     (case snd m of
        Inl e \<Rightarrow> (fst m, Inl e)
      | Inr x \<Rightarrow> (fst m @ fst (f x), snd (f x)))"
  by (cases m) (auto simp: then_run_def split: sum.splits prod.splits)

lemma getRoot_fst: "fst (getRoot w) = [Spawn ''git'' [''rev-parse'', ''--show-toplevel''] None]"
  by (simp add: getRoot_def then_run_eq spawn_def ret_def split: prod.splits)

lemma isDirty_fst: "fst (isDirty w root) = [Spawn ''git'' [''status'', ''--porcelain''] (Some root)]"
  by (simp add: isDirty_def then_run_eq spawn_def ret_def split: prod.splits)

lemma isDirty_snd:
  "snd (isDirty w root) =
     Inr (fst (spawn_result w ''git'' [''status'', ''--porcelain''] (Some root)) \<noteq> Some 0
          \<or> trim (snd (spawn_result w ''git'' [''status'', ''--porcelain''] (Some root))) \<noteq> [])"
  by (auto simp: isDirty_def then_run_eq spawn_def ret_def split: prod.splits)

lemma getHighestVersionTag_fst:
  "fst (getHighestVersionTag w root) = [Spawn ''git'' [''tag'', ''--list''] (Some root)]"
  by (simp add: getHighestVersionTag_def then_run_eq spawn_def ret_def throw_def Let_def
      split: prod.splits sum.splits)

lemma getCurrentBranch_fst:
  "fst (getCurrentBranch w root) = [Spawn ''git'' [''branch'', ''--show-current''] (Some root)]"
  by (simp add: getCurrentBranch_def then_run_eq spawn_def ret_def split: prod.splits)

lemma getRefCommit_fst:
  "fst (getRefCommit w root ref refType) =
     [Spawn ''git'' [''rev-list'', ''-1'', refType @ ''s/'' @ ref] (Some root)]"
  by (simp add: getRefCommit_def then_run_eq spawn_def ret_def split: prod.splits)

lemma filter_valid_flip:
  "filter (\<lambda>tag. None \<noteq> semver_valid (VString tag)) xs =
   filter (\<lambda>t. semver_valid (VString t) \<noteq> None) xs"
proof -
  have "(\<lambda>tag. None \<noteq> semver_valid (VString tag)) = (\<lambda>t. semver_valid (VString t) \<noteq> None)"
    by (rule ext) metis
  then show ?thesis by simp
qed

lemma getHighestVersionTag_none:
  assumes "filter (\<lambda>t. semver_valid (VString t) \<noteq> None)
             (split_char (CHR 0x0A) (snd (spawn_result w ''git'' [''tag'', ''--list''] (Some root)))) = []"
  shows "snd (getHighestVersionTag w root) = Inr None"
  using assms
  by (cases "spawn_result w ''git'' [''tag'', ''--list''] (Some root)")
    (simp add: getHighestVersionTag_def then_run_eq spawn_def ret_def filter_valid_flip)

lemma getHighestVersionTag_some_valid:
  assumes "snd (getHighestVersionTag w root) = Inr (Some t)"
  shows "parse_version t \<noteq> None"
proof -
  obtain code out where o: "spawn_result w ''git'' [''tag'', ''--list''] (Some root) = (code, out)"
    by (cases "spawn_result w ''git'' [''tag'', ''--list''] (Some root)")
  let ?tags = "filter (\<lambda>t. semver_valid (VString t) \<noteq> None) (split_char (CHR 0x0A) out)"
  have v: "parse_version x \<noteq> None" if "x \<in> set ?tags" for x
    using that semver_valid_iff[of x] by simp
  from sort_tags[of ?tags, OF v]
  obtain ys where ys: "sort_by (\<lambda>a b. semver_rcompare (VString a) (VString b)) ?tags = Inr ys"
    "set ys = set ?tags"
    by blast
  show ?thesis
  proof (cases "Some 0 = code")
    case True
    with assms o ys(1) have "(case ys of [] \<Rightarrow> None | tag # _ \<Rightarrow> Some tag) = Some t"
      by (simp add: getHighestVersionTag_def then_run_eq spawn_def ret_def filter_valid_flip)
    then have "t \<in> set ys" by (cases ys) auto
    with ys(2) v show ?thesis by blast
  next
    case False
    with assms o show ?thesis
      by (simp add: getHighestVersionTag_def then_run_eq spawn_def ret_def)
  qed
qed

text \<open>
  Claim C5. When git lists no tag that is a valid semantic version (and the run got as far
  as the tag query: the git root was found and the tree was not refused as dirty),
  \<^verbatim>\<open>main\<close> returns the literal \<^verbatim>\<open>0.1.0\<close> and has spawned nothing but the git
  queries for the root, the status and the tags: no clone, no package manager, no
  type checker.
\<close>

theorem C5_no_previous_tag:
  assumes "snd (getRoot w) = Inr (Some root)"
    and "\<not> (errorOnDirty \<and> snd (isDirty w root) = Inr True)"
    and "filter (\<lambda>t. semver_valid (VString t) \<noteq> None)
           (split_char (CHR 0x0A) (snd (spawn_result w ''git'' [''tag'', ''--list''] (Some root)))) = []"
  shows "snd (main w errorOnDirty errorOnUnreachable) = Inr (VString ''0.1.0'')
       \<and> render (VString ''0.1.0'') = ''0.1.0''
       \<and> fst (main w errorOnDirty errorOnUnreachable) =
           [Spawn ''git'' [''rev-parse'', ''--show-toplevel''] None] @
           (if errorOnDirty then [Spawn ''git'' [''status'', ''--porcelain''] (Some root)] else []) @
           [Spawn ''git'' [''tag'', ''--list''] (Some root)]"
proof (cases errorOnDirty)
  note none = getHighestVersionTag_none[OF assms(3)]
  case True
  with assms(2) isDirty_snd[of w root] have d: "snd (isDirty w root) = Inr False" by auto
  from True assms(1) none d show ?thesis
    by (simp add: main_def then_run_eq getRoot_fst isDirty_fst getHighestVersionTag_fst
        ret_def render_def)
next
  note none = getHighestVersionTag_none[OF assms(3)]
  case False
  with assms(1) none show ?thesis
    by (simp add: main_def then_run_eq getRoot_fst getHighestVersionTag_fst ret_def render_def)
qed

theorem C5_no_previous_tag_witness:
  "snd (getRoot untagged_world) = Inr (Some ''/repo'')
   \<and> filter (\<lambda>t. semver_valid (VString t) \<noteq> None)
        (split_char (CHR 0x0A)
          (snd (spawn_result untagged_world ''git'' [''tag'', ''--list''] (Some ''/repo'')))) = []
   \<and> main untagged_world True True =
        ([Spawn ''git'' [''rev-parse'', ''--show-toplevel''] None,
          Spawn ''git'' [''status'', ''--porcelain''] (Some ''/repo''),
          Spawn ''git'' [''tag'', ''--list''] (Some ''/repo'')],
         Inr (VString ''0.1.0''))"
proof -
  have r: "snd (getRoot untagged_world) = Inr (Some ''/repo'')" by code_simp
  have d: "\<not> (True \<and> snd (isDirty untagged_world ''/repo'') = Inr True)" by code_simp
  have t: "filter (\<lambda>t. semver_valid (VString t) \<noteq> None)
        (split_char (CHR 0x0A)
          (snd (spawn_result untagged_world ''git'' [''tag'', ''--list''] (Some ''/repo'')))) = []"
    by code_simp
  from C5_no_previous_tag[OF r d t, of True] r t show ?thesis
    by (cases "main untagged_world True True") simp
qed

text \<open>
  Claim C6, amended. In the revision of \<^verbatim>\<open>main\<close> that compares commits
  (\<^verbatim>\<open>src/unnamed/part_000\<close>), when the highest version tag and the current branch
  resolve to the same commit, the run ends after the six git queries, before any packaging
  or type check, and reports the normalised version of the tag's name
  (\<^verbatim>\<open>semver.valid(previousVersion)\<close>); no manifest is read.
\<close>

theorem C6_same_commit_amended:
  assumes "snd (getRoot w) = Inr (Some root)"
    and "\<not> (errorOnDirty \<and> snd (isDirty w root) = Inr True)"
    and "snd (getHighestVersionTag w root) = Inr (Some previousVersion)"
    and "snd (getRefCommit w root previousVersion ''tag'') = Inr (Some commit)"
    and "snd (getCurrentBranch w root) = Inr (Some currentVersion)"
    and "snd (getRefCommit w root currentVersion ''head'') = Inr (Some commit)"
  shows "\<exists>v. parse_version previousVersion = Some v
       \<and> snd (main_part_000 w liskov errorOnDirty errorOnUnreachable) = Inr (VString (format v))
       \<and> fst (main_part_000 w liskov errorOnDirty errorOnUnreachable) =
           [Spawn ''git'' [''rev-parse'', ''--show-toplevel''] None] @
           (if errorOnDirty then [Spawn ''git'' [''status'', ''--porcelain''] (Some root)] else []) @
           [Spawn ''git'' [''tag'', ''--list''] (Some root),
            Spawn ''git'' [''rev-list'', ''-1'', ''tags/'' @ previousVersion] (Some root),
            Spawn ''git'' [''branch'', ''--show-current''] (Some root),
            Spawn ''git'' [''rev-list'', ''-1'', ''heads/'' @ currentVersion] (Some root)]"
proof -
  from getHighestVersionTag_some_valid[OF assms(3)]
  obtain v where v: "parse_version previousVersion = Some v" by blast
  then have sv: "semver_valid (VString previousVersion) = Some (format v)"
    by (simp add: semver_valid_def semver_parse_def new_SemVer_def)
  have d: "errorOnDirty \<Longrightarrow> snd (isDirty w root) = Inr False"
    using assms(2) isDirty_snd[of w root] by auto
  show ?thesis
  proof (cases errorOnDirty)
    case True
    with assms v sv d show ?thesis
      by (simp add: main_part_000_def then_run_eq getRoot_fst isDirty_fst getHighestVersionTag_fst
          getRefCommit_fst getCurrentBranch_fst ret_def)
  next
    case False
    with assms v sv show ?thesis
      by (simp add: main_part_000_def then_run_eq getRoot_fst getHighestVersionTag_fst
          getRefCommit_fst getCurrentBranch_fst ret_def)
  qed
qed

theorem C6_same_commit_amended_witness:
  "snd (getHighestVersionTag same_commit_world ''/repo'') = Inr (Some ''v1.0.0'')
   \<and> snd (getRefCommit same_commit_world ''/repo'' ''v1.0.0'' ''tag'') = Inr (Some ''0c7ec5e'')
   \<and> snd (getRefCommit same_commit_world ''/repo'' ''main'' ''head'') = Inr (Some ''0c7ec5e'')
   \<and> snd (main_part_000 same_commit_world (liskovSemVerForwardsBackwards same_commit_world) True True)
        = Inr (VString ''1.0.0'')"
proof -
  have r: "snd (getRoot same_commit_world) = Inr (Some ''/repo'')" by code_simp
  have d: "\<not> (True \<and> snd (isDirty same_commit_world ''/repo'') = Inr True)" by code_simp
  have t: "snd (getHighestVersionTag same_commit_world ''/repo'') = Inr (Some ''v1.0.0'')" by code_simp
  have p: "snd (getRefCommit same_commit_world ''/repo'' ''v1.0.0'' ''tag'') = Inr (Some ''0c7ec5e'')"
    by code_simp
  have b: "snd (getCurrentBranch same_commit_world ''/repo'') = Inr (Some ''main'')" by code_simp
  have c: "snd (getRefCommit same_commit_world ''/repo'' ''main'' ''head'') = Inr (Some ''0c7ec5e'')"
    by code_simp
  have v: "parse_version ''v1.0.0'' =
             Some \<lparr>major = 1, minor = 0, patch = 0, prerelease = [], buildmeta = []\<rparr>"
    by code_simp
  have f: "format \<lparr>major = 1, minor = 0, patch = 0, prerelease = [], buildmeta = []\<rparr> = ''1.0.0''"
    by code_simp
  from C6_same_commit_amended[OF r d t p b c, of "liskovSemVerForwardsBackwards same_commit_world" True]
    v f t p c
  show ?thesis by auto
qed

text \<open>
  \<^verbatim>\<open>main\<close> of \<^verbatim>\<open>src/main.mjs\<close> has no such early return: in the same environment
  it packages both references, runs the type checker twice and reports a patch bump of the
  declared version.
\<close>

lemma main_same_commit_no_early_return:
  "snd (main same_commit_world True False) = Inr (VString ''0.9.1'')
   \<and> Spawn ''tsc'' [''--noEmit'', ''--strict'', ''/tmp/liskov-semver-abc123/currentFitsPrevious.ts'']
        (Some ''/tmp/liskov-semver-abc123'') \<in> set (fst (main same_commit_world True False))"
  by code_simp

text \<open>
  The claim as stated fails: with the tag \<^verbatim>\<open>v1.0.0\<close> on a commit whose manifest
  declares version \<^verbatim>\<open>0.9.0\<close>, the output is \<^verbatim>\<open>1.0.0\<close>, not the declared
  version of the previous artifact.
\<close>

theorem C6_same_commit_counterexample:
  "snd (getRefCommit same_commit_world ''/repo'' ''v1.0.0'' ''tag'') = Inr (Some ''0c7ec5e'')
   \<and> snd (getRefCommit same_commit_world ''/repo'' ''main'' ''head'') = Inr (Some ''0c7ec5e'')
   \<and> snd (createTgzAndGetEntryPointsAndVersion same_commit_world ''/repo''
            ''/tmp/liskov-semver-abc123'' ''v1.0.0'' ''previousVersion'') = Inr ([[]], JStr ''0.9.0'')
   \<and> snd (main_part_000 same_commit_world (liskovSemVerForwardsBackwards same_commit_world) True True)
        = Inr (VString ''1.0.0'')
   \<and> render (VString ''1.0.0'') \<noteq> ''0.9.0''"
  by code_simp

text \<open>
  Claim C10. \<^verbatim>\<open>isDirty\<close> answers true exactly when \<^verbatim>\<open>git status --porcelain\<close>
  exits with a code other than 0 or prints something besides white space; so with
  error-on-dirty enabled a run whose status query fails aborts with the dirty-tree error,
  right after the status query.
\<close>

theorem C10_dirty_when_status_fails:
  "snd (isDirty w root) =
     Inr (fst (spawn_result w ''git'' [''status'', ''--porcelain''] (Some root)) \<noteq> Some 0
          \<or> trim (snd (spawn_result w ''git'' [''status'', ''--porcelain''] (Some root))) \<noteq> [])
   \<and> (snd (getRoot w) = Inr (Some root)
        \<and> fst (spawn_result w ''git'' [''status'', ''--porcelain''] (Some root)) \<noteq> Some 0 \<longrightarrow>
        main w True errorOnUnreachable =
          ([Spawn ''git'' [''rev-parse'', ''--show-toplevel''] None,
            Spawn ''git'' [''status'', ''--porcelain''] (Some root)],
           Inl (Error ''error: dirty working tree'')))"
proof (intro conjI impI)
  show "snd (isDirty w root) =
     Inr (fst (spawn_result w ''git'' [''status'', ''--porcelain''] (Some root)) \<noteq> Some 0
          \<or> trim (snd (spawn_result w ''git'' [''status'', ''--porcelain''] (Some root))) \<noteq> [])"
    by (rule isDirty_snd)
next
  assume a: "snd (getRoot w) = Inr (Some root)
        \<and> fst (spawn_result w ''git'' [''status'', ''--porcelain''] (Some root)) \<noteq> Some 0"
  then have d: "snd (isDirty w root) = Inr True" by (simp add: isDirty_snd)
  from a d show "main w True errorOnUnreachable =
          ([Spawn ''git'' [''rev-parse'', ''--show-toplevel''] None,
            Spawn ''git'' [''status'', ''--porcelain''] (Some root)],
           Inl (Error ''error: dirty working tree''))"
    by (simp add: main_def then_run_eq getRoot_fst isDirty_fst throw_def)
qed

theorem C10_dirty_when_status_fails_witness:
  "snd (getRoot status_fails_world) = Inr (Some ''/repo'')
   \<and> spawn_result status_fails_world ''git'' [''status'', ''--porcelain''] (Some ''/repo'') = (Some 128, [])
   \<and> snd (isDirty status_fails_world ''/repo'') = Inr True
   \<and> main status_fails_world True True =
        ([Spawn ''git'' [''rev-parse'', ''--show-toplevel''] None,
          Spawn ''git'' [''status'', ''--porcelain''] (Some ''/repo'')],
         Inl (Error ''error: dirty working tree''))"
proof -
  have r: "snd (getRoot status_fails_world) = Inr (Some ''/repo'')" by code_simp
  have s: "spawn_result status_fails_world ''git'' [''status'', ''--porcelain''] (Some ''/repo'') = (Some 128, [])"
    by code_simp
  from C10_dirty_when_status_fails[of status_fails_world "''/repo''" True] r s show ?thesis
    by simp
qed

section \<open>Entry points and declared version of a manifest\<close>

lemma types_in_declares: "types_in x = Inr b \<Longrightarrow> b = declares_types x"
  by (auto simp: types_in_def declares_types_def split: json.splits)

lemma types_in_error: "types_in x = Inl e \<Longrightarrow> e = TypeError"
  by (auto simp: types_in_def split: json.splits)

lemma types_in_object: "typeof_object x \<Longrightarrow> x \<noteq> JNull \<Longrightarrow> types_in x = Inr (declares_types x)"
  by (auto simp: types_in_def declares_types_def typeof_object_def split: json.splits)

lemma declares_types_object: "declares_types x \<Longrightarrow> typeof_object x \<and> x \<noteq> JNull"
  by (auto simp: declares_types_def typeof_object_def split: json.splits)

lemma filter_types_ok:
  "JNull \<notin> snd ` set es \<Longrightarrow>
   filter_types es = Inr (filter (\<lambda>kv. declares_types (snd kv)) es)"
proof (induction es)
  case Nil
  then show ?case by simp
next
  case (Cons kv es)
  obtain k v where kv: "kv = (k, v)" by (cases kv)
  with Cons.prems have v: "v \<noteq> JNull" by auto
  have "(if typeof_object v then types_in v else Inr False) = Inr (declares_types v)"
    using v types_in_object[of v] declares_types_object[of v] by auto
  with Cons kv show ?case by simp
qed

lemma filter_types_null:
  "JNull \<in> snd ` set es \<Longrightarrow> filter_types es = Inl TypeError"
proof (induction es)
  case Nil
  then show ?case by simp
next
  case (Cons kv es)
  obtain k v where kv: "kv = (k, v)" by (cases kv)
  show ?case
  proof (cases "v = JNull")
    case True
    with kv show ?thesis by (simp add: typeof_object_def types_in_def)
  next
    case False
    with Cons kv have "filter_types es = Inl TypeError" by auto
    with kv show ?thesis by (auto split: sum.splits dest: types_in_error)
  qed
qed

lemma Object_entries_not_null: "x \<noteq> JNull \<Longrightarrow> \<exists>es. Object_entries x = Inr es"
  by (cases x) (simp_all add: Object_entries_def)

lemma nullish_object: "nullish x (JObj []) \<noteq> JNull"
  by (auto simp: nullish_def split: option.splits json.splits)

lemma property_not_null: "m \<noteq> JNull \<Longrightarrow> \<exists>x. property m name = Inr x"
  by (cases m) (simp_all add: property_def)

lemma entryPointsAndVersion_returns:
  assumes "entryPointsAndVersion m = Inr (eps, v)"
  shows "typeof_object m \<and> m \<noteq> JNull \<and> JNull \<notin> snd ` set (export_entries m)
       \<and> eps = sort (let xs = (if declares_types m then [[]] else []) @
                              map fst (filter (\<lambda>kv. declares_types (snd kv)) (export_entries m))
                     in if xs = [] then [[]] else xs)
       \<and> (\<exists>x. property m ''version'' = Inr x \<and> v = nullish x JNull)"
proof -
  from assms have t: "typeof_object m"
    by (auto simp: entryPointsAndVersion_def split: if_splits)
  from assms t obtain rootTypes where rt: "types_in m = Inr rootTypes"
    by (auto simp: entryPointsAndVersion_def split: sum.splits)
  then have nn: "m \<noteq> JNull" by (auto simp: types_in_def)
  from rt have rd: "rootTypes = declares_types m" by (rule types_in_declares)
  from nn obtain exports where ex: "property m ''exports'' = Inr exports"
    using property_not_null by blast
  obtain entries where en: "Object_entries (nullish exports (JObj [])) = Inr entries"
    using Object_entries_not_null[OF nullish_object] by blast
  from ex en have ee: "export_entries m = entries" by (simp add: export_entries_def)
  from assms t rt ex en obtain kept where k: "filter_types entries = Inr kept"
    by (cases "filter_types entries") (simp_all add: entryPointsAndVersion_def)
  have nonull: "JNull \<notin> snd ` set entries"
    using k filter_types_null[of entries] by auto
  then have kf: "kept = filter (\<lambda>kv. declares_types (snd kv)) entries"
    using k filter_types_ok[of entries] by simp
  from nn obtain x where x: "property m ''version'' = Inr x"
    using property_not_null by blast
  from assms t rt ex en k x
  have "eps = sort (let xs = (if rootTypes then [[]] else []) @ map fst kept
                    in if xs = [] then [[]] else xs) \<and> v = nullish x JNull"
    by (cases rootTypes; cases "kept = []") (auto simp: entryPointsAndVersion_def Let_def)
  with rd kf ee have "eps = sort (let xs = (if declares_types m then [[]] else []) @
                              map fst (filter (\<lambda>kv. declares_types (snd kv)) (export_entries m))
                     in if xs = [] then [[]] else xs) \<and> v = nullish x JNull"
    by simp
  with t nn nonull ee x show ?thesis by blast
qed

lemma entryPointsAndVersion_total:
  assumes "typeof_object m" and "m \<noteq> JNull" and "JNull \<notin> snd ` set (export_entries m)"
  shows "\<exists>eps v. entryPointsAndVersion m = Inr (eps, v)"
proof -
  have rt: "types_in m = Inr (declares_types m)" using assms by (simp add: types_in_object)
  from assms(2) obtain exports where ex: "property m ''exports'' = Inr exports"
    using property_not_null by blast
  obtain entries where en: "Object_entries (nullish exports (JObj [])) = Inr entries"
    using Object_entries_not_null[OF nullish_object] by blast
  from ex en have ee: "export_entries m = entries" by (simp add: export_entries_def)
  from assms(2) obtain x where x: "property m ''version'' = Inr x"
    using property_not_null by blast
  from assms rt ex en ee x filter_types_ok[of entries] show ?thesis
    by (simp add: entryPointsAndVersion_def Let_def)
qed

lemma entry_points_spec:
  assumes "entryPointsAndVersion m = Inr (eps, v)"
  shows "sorted eps \<and> set eps = spec_entry_points m \<and> eps \<noteq> []"
proof -
  define xs where "xs = (if declares_types m then [[]] else []) @
             map fst (filter (\<lambda>kv. declares_types (snd kv)) (export_entries m))"
  define ys where "ys = (if xs = [] then [[]] else xs)"
  from entryPointsAndVersion_returns[OF assms]
  have e: "eps = sort ys" by (simp add: Let_def xs_def ys_def)
  have k: "(if declares_types m then {[]} else {}) \<union>
           set (map fst (filter (\<lambda>kv. declares_types (snd kv)) (export_entries m))) = set xs"
    unfolding xs_def by simp
  have s: "spec_entry_points m = (if set xs = {} then {[]} else set xs)"
    unfolding spec_entry_points_def Let_def k ..
  have y: "set ys = spec_entry_points m" unfolding s ys_def by simp
  have n: "ys \<noteq> []" unfolding ys_def by simp
  have "sorted eps" unfolding e by (rule sorted_sort)
  moreover have "set eps = spec_entry_points m" unfolding e using y by simp
  moreover have "eps \<noteq> []" unfolding e using n by (metis set_sort set_empty)
  ultimately show ?thesis by blast
qed

lemma entryPointsAndVersion_part_000_empty:
  "entryPointsAndVersion_part_000 (JObj [(''name'', JStr ''pkg'')]) = Inr ([], JNull)
   \<and> entryPointsAndVersion (JObj [(''name'', JStr ''pkg'')]) = Inr ([[]], JNull)"
  by code_simp

text \<open>
  Claim C3. For a manifest from which a list is extracted, the list is sorted, not empty,
  and holds exactly the specification's entry points (\<open>entry_points_spec\<close>), and a list is
  extracted from every manifest that is an object or array without a \<^verbatim>\<open>null\<close> among
  the values of its export map (\<open>entryPointsAndVersion_total\<close>). But the claim is for every
  manifest, and on an export map with a \<^verbatim>\<open>null\<close> value, where the specification's set
  is the root entry point alone, the filter throws a \<^verbatim>\<open>TypeError\<close>:
  \<^verbatim>\<open>typeof null\<close> is \<^verbatim>\<open>"object"\<close> and \<^verbatim>\<open>"types" in null\<close> is an error.
\<close>

theorem C3_null_export_value:
  "spec_entry_points null_export_manifest = {[]}
   \<and> entryPointsAndVersion null_export_manifest = Inl TypeError"
  by (simp add: null_export_manifest_def spec_entry_points_def export_entries_def
      entryPointsAndVersion_def declares_types_def property_def nullish_def Object_entries_def
      typeof_object_def types_in_def)

lemma count_list_insort:
  "count_list (insort x xs) e = (if x = e then 1 else 0) + count_list xs e"
  by (induction xs) auto

lemma count_list_sort: "count_list (sort xs) e = count_list xs e"
  by (induction xs) (auto simp: count_list_insort)

lemma distinct_map_fst_filter: "distinct (map fst es) \<Longrightarrow> distinct (map fst (filter P es))"
  by (induction es) (auto simp: image_iff)

lemma count_list_distinct: "distinct xs \<Longrightarrow> count_list xs e \<le> 1"
  by (induction xs) auto

text \<open>
  Claim C8, amended. The extracted list is sorted, and when the keys of the export map are
  distinct (as those of a parsed object are) an entry point occurs at most once, except that
  the root entry point may occur twice, and only when the manifest declares root
  \<^verbatim>\<open>types\<close> and the export map has the key \<^verbatim>\<open>""\<close> with a value that declares
  \<^verbatim>\<open>types\<close>: nothing removes duplicates.
\<close>

theorem C8_entry_points_sorted_amended:
  assumes "entryPointsAndVersion m = Inr (eps, v)"
    and "distinct (map fst (export_entries m))"
  shows "sorted eps
       \<and> (\<forall>e. count_list eps e \<le>
             (if e = [] \<and> declares_types m \<and>
                 [] \<in> set (map fst (filter (\<lambda>kv. declares_types (snd kv)) (export_entries m)))
              then 2 else 1))"
proof -
  define ks where "ks = map fst (filter (\<lambda>kv. declares_types (snd kv)) (export_entries m))"
  define xs where "xs = (if declares_types m then [[]] else []) @ ks"
  define ys where "ys = (if xs = [] then [[]] else xs)"
  from entryPointsAndVersion_returns[OF assms(1)]
  have e: "eps = sort ys" by (simp add: Let_def xs_def ys_def ks_def)
  have "distinct ks" unfolding ks_def using assms(2) by (rule distinct_map_fst_filter)
  then have k1: "count_list ks a \<le> 1" for a by (rule count_list_distinct)
  have k0: "a \<notin> set ks \<Longrightarrow> count_list ks a = 0" for a by (simp add: count_list_0_iff)
  have x: "count_list xs a \<le> (if a = [] \<and> declares_types m \<and> [] \<in> set ks then 2 else 1)" for a
    using k1[of a] k0[of a] by (auto simp: xs_def)
  have y: "count_list ys a \<le> (if a = [] \<and> declares_types m \<and> [] \<in> set ks then 2 else 1)" for a
    using x[of a] by (cases "xs = []") (auto simp: ys_def)
  have "sorted eps" unfolding e by (rule sorted_sort)
  moreover have "\<forall>a. count_list eps a \<le>
      (if a = [] \<and> declares_types m \<and> [] \<in> set ks then 2 else 1)"
    unfolding e count_list_sort using y by blast
  ultimately show ?thesis unfolding ks_def by blast
qed

theorem C8_entry_points_sorted_amended_witness:
  "entryPointsAndVersion double_root_manifest = Inr ([[], []], JNull)
   \<and> distinct (map fst (export_entries double_root_manifest))
   \<and> sorted [[], [] :: string]
   \<and> count_list [[], [] :: string] [] \<le> 2"
proof -
  have a: "entryPointsAndVersion double_root_manifest = Inr ([[], []], JNull)" by code_simp
  have b: "distinct (map fst (export_entries double_root_manifest))" by code_simp
  have d: "declares_types double_root_manifest" by code_simp
  from C8_entry_points_sorted_amended[OF a b] a b d show ?thesis by auto
qed

text \<open>The claim as stated fails: the list of this manifest holds the root entry point twice.\<close>

theorem C8_entry_points_duplicate_counterexample:
  "entryPointsAndVersion double_root_manifest = Inr ([[], []], JNull)
   \<and> \<not> distinct [[], [] :: string]"
  by code_simp

lemma main_decision_invalid_previous:
  assumes "semver_parse (version_arg_of_json P) = None"
  shows "main_decision P C f b = Inl TypeError"
proof -
  from assms have n: "new_SemVer (version_arg_of_json P) = Inl TypeError"
    by (auto simp: semver_parse_def split: sum.splits dest: new_SemVer_error)
  have i: "semver_inc (version_arg_of_json P) r = VNull" for r
    using n by (cases "version_arg_of_json P") (simp_all add: semver_inc_def new_SemVer_def)
  show ?thesis
    using n i by (simp add: main_decision_def newSemVer_def semver_major_def latest_null_left)
qed

lemma property_error: "property x name = Inl e \<Longrightarrow> e = TypeError"
  by (cases x) (simp_all add: property_def)

lemma Object_entries_error: "Object_entries x = Inl e \<Longrightarrow> e = TypeError"
  by (cases x) (simp_all add: Object_entries_def)

lemma filter_types_error: "filter_types es = Inl e \<Longrightarrow> e = TypeError"
proof (induction es)
  case Nil
  then show ?case by simp
next
  case (Cons kv es)
  obtain k v where kv: "kv = (k, v)" by (cases kv)
  with Cons show ?case
    by (auto split: sum.splits if_splits dest: types_in_error)
qed

lemma entryPointsAndVersion_error:
  assumes "typeof_object m" and "entryPointsAndVersion m = Inl e"
  shows "e = TypeError"
  using assms
  by (auto simp: entryPointsAndVersion_def Let_def split: sum.splits
      dest: types_in_error property_error Object_entries_error filter_types_error)

text \<open>
  Claim C9, amended. The declared version is the manifest's \<^verbatim>\<open>version\<close> field as it is
  (\<^verbatim>\<open>null\<close> when absent), not validated; extraction throws the malformed-manifest
  error exactly when the manifest is not of type object; and a previous or current declared
  version that is \<^verbatim>\<open>null\<close> or no valid semantic version reaches the version decision,
  which then throws a \<^verbatim>\<open>TypeError\<close> instead of returning a version.
\<close>

theorem C9_declared_version_amended:
  "(\<forall>eps v. entryPointsAndVersion m = Inr (eps, v) \<longrightarrow>
      (\<exists>x. property m ''version'' = Inr x \<and> v = nullish x JNull))
   \<and> (entryPointsAndVersion m = Inl (Error ''error: malformed package.json'')
        \<longleftrightarrow> \<not> typeof_object m)
   \<and> (semver_parse (version_arg_of_json P) = None \<or> semver_parse (version_arg_of_json C) = None
        \<longrightarrow> main_decision P C forwards backwards = Inl TypeError)"
proof (intro conjI allI impI)
  fix eps v
  assume "entryPointsAndVersion m = Inr (eps, v)"
  from entryPointsAndVersion_returns[OF this]
  show "\<exists>x. property m ''version'' = Inr x \<and> v = nullish x JNull" by blast
next
  show "entryPointsAndVersion m = Inl (Error ''error: malformed package.json'')
        \<longleftrightarrow> \<not> typeof_object m"
  proof
    assume a: "entryPointsAndVersion m = Inl (Error ''error: malformed package.json'')"
    show "\<not> typeof_object m"
    proof
      assume "typeof_object m"
      from entryPointsAndVersion_error[OF this a] show False by simp
    qed
  next
    assume "\<not> typeof_object m"
    then show "entryPointsAndVersion m = Inl (Error ''error: malformed package.json'')"
      by (simp add: entryPointsAndVersion_def)
  qed
next
  assume "semver_parse (version_arg_of_json P) = None \<or> semver_parse (version_arg_of_json C) = None"
  then show "main_decision P C forwards backwards = Inl TypeError"
    using main_decision_invalid_previous main_decision_invalid_current by blast
qed

theorem C9_declared_version_amended_witness:
  "entryPointsAndVersion bad_version_manifest = Inr ([[]], JStr ''one.two'')
   \<and> property bad_version_manifest ''version'' = Inr (Some (JStr ''one.two''))
   \<and> semver_parse (version_arg_of_json (JStr ''one.two'')) = None
   \<and> main_decision (JStr ''one.two'') (JStr ''1.0.0'') True True = Inl TypeError"
proof -
  have a: "entryPointsAndVersion bad_version_manifest = Inr ([[]], JStr ''one.two'')" by code_simp
  have b: "property bad_version_manifest ''version'' = Inr (Some (JStr ''one.two''))" by code_simp
  have c: "semver_parse (version_arg_of_json (JStr ''one.two'')) = None" by code_simp
  from C9_declared_version_amended[of bad_version_manifest "JStr ''one.two''" "JStr ''1.0.0'' " True True]
    a b c
  show ?thesis by blast
qed

text \<open>
  The claim as stated fails: a manifest whose version is \<^verbatim>\<open>one.two\<close> is extracted
  without error, and the failure comes only in the version decision.
\<close>

theorem C9_unvalidated_version_counterexample:
  "entryPointsAndVersion bad_version_manifest = Inr ([[]], JStr ''one.two'')
   \<and> semver_valid (VString ''one.two'') = None
   \<and> main_decision (JStr ''one.two'') (JStr ''1.0.0'') True True = Inl TypeError"
  by code_simp

section \<open>The witness programs\<close>

lemma written_texts_append: "written_texts (a @ b) = written_texts a @ written_texts b"
  by (simp add: written_texts_def)

lemma then_run_texts:
  "written_texts (fst (then_run m f)) =
     written_texts (fst m) @
     (case snd m of Inl e \<Rightarrow> [] | Inr x \<Rightarrow> written_texts (fst (f x)))"
  by (simp add: then_run_eq written_texts_append split: sum.splits)

lemma spawn_texts: "written_texts (fst (spawn w c a d)) = []"
  by (simp add: spawn_def written_texts_def)

lemma ret_texts: "written_texts (fst (ret x)) = []"
  by (simp add: ret_def written_texts_def)

lemma throw_texts: "written_texts (fst (throw e)) = []"
  by (simp add: throw_def written_texts_def)

lemma cloneTo_texts: "written_texts (fst (cloneTo w root to ref)) = []"
  by (simp add: cloneTo_def then_run_texts spawn_texts ret_texts split: sum.splits prod.splits)

lemma exists_path_texts: "written_texts (fst (exists_path w p)) = []"
  by (simp add: exists_path_def written_texts_def)

lemma rename_texts: "written_texts (fst (rename w dir name)) = []"
  by (simp add: rename_def then_run_texts spawn_texts ret_texts split: sum.splits prod.splits)

lemma install_texts: "written_texts (fst (install w dir)) = []"
  by (simp add: install_def then_run_texts spawn_texts ret_texts split: sum.splits prod.splits)

lemma build_texts: "written_texts (fst (build w dir)) = []"
  by (simp add: build_def then_run_texts spawn_texts ret_texts split: sum.splits prod.splits)

lemma packTo_texts: "written_texts (fst (packTo w dir to)) = []"
  by (simp add: packTo_def then_run_texts spawn_texts ret_texts split: sum.splits prod.splits)

lemma read_json_texts: "written_texts (fst (read_json w p)) = []"
  by (simp add: read_json_def written_texts_def)

lemma mkdir_texts: "written_texts (fst (fs_op w (Mkdir d))) = []"
  by (simp add: fs_op_def written_texts_def)

lemma nil_texts: "written_texts [] = []"
  by (simp add: written_texts_def)

lemma createTgz_texts:
  "written_texts (fst (createTgzAndGetEntryPointsAndVersion w root base ref name)) = []"
  by (simp add: createTgzAndGetEntryPointsAndVersion_def Let_def then_run_texts
      mkdir_texts cloneTo_texts exists_path_texts rename_texts install_texts build_texts
      packTo_texts read_json_texts throw_texts nil_texts
      split: sum.splits if_splits)

lemma fs_all_fst: "fst (fs_all w es) = es"
  by (induction es) (auto split: prod.splits)

lemma hydrate_texts:
  assumes "snd (createTgzAndGetEntryPointsAndVersion w root base previousVersion ''previousVersion'')
             = Inr (previousEntryPoints, previousSemVer)"
    and "snd (createTgzAndGetEntryPointsAndVersion w root base currentVersion ''currentVersion'')
             = Inr (currentEntryPoints, currentSemVer)"
  shows "written_texts (fst (hydrateBaseDirectoryAndGetSemver w root previousVersion currentVersion base))
           = [package_json_text,
              currentFitsPrevious_ts previousEntryPoints currentEntryPoints,
              previousFitsCurrent_ts previousEntryPoints currentEntryPoints]"
  using assms
  by (simp add: hydrateBaseDirectoryAndGetSemver_def then_run_texts createTgz_texts fs_all_fst
      install_texts throw_texts ret_texts split: sum.splits)
    (simp add: written_texts_def)

text \<open>
  Claim C7. Two runs, in any two environments, repositories and scratch directories, whose
  packagings yield the same previous and the same current entry-point lists write the same
  three texts: the fixed manifest and the two witness programs, which are functions of the
  two lists alone.
\<close>

theorem C7_witness_synthesis_deterministic:
  assumes "snd (createTgzAndGetEntryPointsAndVersion w1 root1 base1 previous1 ''previousVersion'')
             = Inr (previousEntryPoints, previousSemVer1)"
    and "snd (createTgzAndGetEntryPointsAndVersion w1 root1 base1 current1 ''currentVersion'')
             = Inr (currentEntryPoints, currentSemVer1)"
    and "snd (createTgzAndGetEntryPointsAndVersion w2 root2 base2 previous2 ''previousVersion'')
             = Inr (previousEntryPoints, previousSemVer2)"
    and "snd (createTgzAndGetEntryPointsAndVersion w2 root2 base2 current2 ''currentVersion'')
             = Inr (currentEntryPoints, currentSemVer2)"
  shows "written_texts (fst (hydrateBaseDirectoryAndGetSemver w1 root1 previous1 current1 base1))
           = written_texts (fst (hydrateBaseDirectoryAndGetSemver w2 root2 previous2 current2 base2))
       \<and> written_texts (fst (hydrateBaseDirectoryAndGetSemver w1 root1 previous1 current1 base1))
           = [package_json_text,
              currentFitsPrevious_ts previousEntryPoints currentEntryPoints,
              previousFitsCurrent_ts previousEntryPoints currentEntryPoints]"
  using hydrate_texts[OF assms(1,2)] hydrate_texts[OF assms(3,4)] by simp

theorem C7_witness_synthesis_deterministic_witness:
  "snd (createTgzAndGetEntryPointsAndVersion same_commit_world ''/repo''
          ''/tmp/liskov-semver-abc123'' ''v1.0.0'' ''previousVersion'') = Inr ([[]], JStr ''0.9.0'')
   \<and> snd (createTgzAndGetEntryPointsAndVersion other_world ''/home/u/proj''
          ''/var/tmp/liskov-semver-zz9'' ''2.0.0'' ''previousVersion'') = Inr ([[]], JStr ''3.1.4'')
   \<and> written_texts (fst (hydrateBaseDirectoryAndGetSemver same_commit_world ''/repo''
          ''v1.0.0'' ''main'' ''/tmp/liskov-semver-abc123''))
     = written_texts (fst (hydrateBaseDirectoryAndGetSemver other_world ''/home/u/proj''
          ''2.0.0'' ''dev'' ''/var/tmp/liskov-semver-zz9''))"
proof -
  have a: "snd (createTgzAndGetEntryPointsAndVersion same_commit_world ''/repo''
          ''/tmp/liskov-semver-abc123'' ''v1.0.0'' ''previousVersion'') = Inr ([[]], JStr ''0.9.0'')"
    by code_simp
  have b: "snd (createTgzAndGetEntryPointsAndVersion same_commit_world ''/repo''
          ''/tmp/liskov-semver-abc123'' ''main'' ''currentVersion'') = Inr ([[]], JStr ''0.9.0'')"
    by code_simp
  have c: "snd (createTgzAndGetEntryPointsAndVersion other_world ''/home/u/proj''
          ''/var/tmp/liskov-semver-zz9'' ''2.0.0'' ''previousVersion'') = Inr ([[]], JStr ''3.1.4'')"
    by code_simp
  have d: "snd (createTgzAndGetEntryPointsAndVersion other_world ''/home/u/proj''
          ''/var/tmp/liskov-semver-zz9'' ''dev'' ''currentVersion'') = Inr ([[]], JStr ''3.1.4'')"
    by code_simp
  from C7_witness_synthesis_deterministic[OF a b c d] a c show ?thesis by blast
qed

end
